theory Spec2Isabelle
  imports
    Complex_Main
    "HOL-Library.Multiset"
    "HOL-Library.Char_ord"
    "HOL-Library.List_Lexorder"
begin

section \<open>Data model of main.go\<close>

text \<open>
  Go strings are byte sequences, compared bytewise and lexicographically by \<open><\<close>;
  they are modelled as \<open>string\<close> with the lexicographic order on lists of characters.
  A Go \<open>int\<close> that can be decremented below zero (cursor, indices kept in the model) is
  an \<open>int\<close>; loop counters that range over \<open>0 .. n-1\<close> are \<open>nat\<close>.
  A \<open>time.Time\<close> is the number of nanoseconds since the zero instant, so \<open>IsZero\<close>
  is equality with \<open>0\<close>; a \<open>time.Duration\<close> is a number of nanoseconds.
  A \<open>float64\<close> is only compared in this program (never computed with, apart from the
  division of a duration by \<open>1e9\<close>), and is modelled as a \<open>real\<close>: the prober
  returns \<open>-1\<close> or a finite parsed value, never a NaN.
\<close>

record Host =
  Host :: string
  Desc :: string

record pingResult =
  status :: bool
  reply :: real
  lastChange :: int
  flashUntil :: int

text \<open>The zero value of \<open>pingResult\<close>, which \<open>make([]pingResult, n)\<close> fills the slice with.\<close>

definition zeroResult :: pingResult where
  "zeroResult = \<lparr>status = False, reply = 0, lastChange = 0, flashUntil = 0\<rparr>"

definition IsZero :: "int \<Rightarrow> bool" where
  "IsZero t = (t = 0)"

definition After :: "int \<Rightarrow> int \<Rightarrow> bool" where
  "After t u = (u < t)"

definition Second :: int where
  "Second = 1000000000"

definition Seconds :: "int \<Rightarrow> real" where
  "Seconds d = real_of_int d / 1000000000"

definition sortChoices :: "string list" where
  "sortChoices = [''name'', ''ip'', ''status'', ''reply'', ''age'']"

datatype modelMode = modeList | modeAdd | modeEdit | modeConfirmDelete | modeOptions

text \<open>
  The part of bubbles' \<open>textinput.Model\<close> that main.go reads and writes: the value,
  the focus flag and the placeholder.
\<close>

record textinput =
  Value :: string
  Focused :: bool
  Placeholder :: string

definition textinput_New :: textinput where
  "textinput_New = \<lparr>Value = [], Focused = False, Placeholder = []\<rparr>"

record model =
  hosts :: "Host list"
  results :: "pingResult list"
  cursor :: int
  width :: int
  height :: int
  mode :: modelMode
  inputHost :: textinput
  inputDesc :: textinput
  editIndex :: int
  confirmIndex :: int
  message :: string
  interval :: int
  quitting :: bool
  sortBy :: string
  optInterval :: textinput
  optSortIndex :: int
  optFocus :: int

text \<open>
  What one step of the program observes of the world outside it: the clock, the resolver,
  the hosts file, and the library routines whose code is not part of the repository.
  The delivery of a batch reads the clock once, with \<open>time.Now()\<close>: that reading is
  \<open>now\<close>. \<open>sortHosts\<close> reads it at every call of \<open>time.Since\<close>, up to twice in
  each comparison under the key \<open>age\<close>: \<open>clock k\<close> is the reading of the call that
  comes after \<open>k\<close> earlier calls of the step.
\<close>

record env =
  now :: int
  clock :: "nat \<Rightarrow> int"
  LookupIP :: "string \<Rightarrow> string option"
  ParseDuration :: "string \<Rightarrow> int option"
  loadHostsFromFile :: "Host list option"
  saveHostsToFile :: "Host list \<Rightarrow> string option"
  textinput_Update :: "string \<Rightarrow> textinput \<Rightarrow> textinput"
  formatSeconds :: "int \<Rightarrow> string"

datatype error = IndexOutOfRange

datatype cmd = CmdNone | CmdQuit | CmdPingAll "Host list" | CmdTick int | CmdInput

datatype msg =
    WindowSizeMsg int int
  | tickMsg int
  | pingResultsMsg "pingResult list"
  | KeyMsg string
  | OtherMsg

section \<open>Library routines\<close>

text \<open>
  \<open>strings.ToLower\<close> on ASCII: the bytes \<open>A\<close> to \<open>Z\<close> are lowered. (Go also lowers the
  non-ASCII letters of Unicode.)
\<close>

definition lowerChar :: "char \<Rightarrow> char" where
  "lowerChar c = (if CHR ''A'' \<le> c \<and> c \<le> CHR ''Z'' then char_of (of_char c + (32::nat)) else c)"

definition ToLower :: "string \<Rightarrow> string" where
  "ToLower s = map lowerChar s"

text \<open>
  \<open>strings.TrimSpace\<close> removes the white space of Unicode from both ends of a string:
  first the leading runes for which \<open>unicode.IsSpace\<close> holds, then the trailing ones.
  These runes are U+0009 to U+000D, U+0020, U+0085, U+00A0, U+1680, U+2000 to U+200A,
  U+2028, U+2029, U+202F, U+205F and U+3000. A Go string is its UTF-8 bytes, and a rune is
  white space exactly when its bytes are one of the encodings listed in \<open>spaces\<close>
  (an invalid or overlong sequence decodes to the error rune, which is not white space).
\<close>

definition spaces :: "string list" where
  "spaces =
     [[CHR 0x09], [CHR 0x0A], [CHR 0x0B], [CHR 0x0C], [CHR 0x0D], [CHR 0x20],
      [CHR 0xC2, CHR 0x85], [CHR 0xC2, CHR 0xA0],
      [CHR 0xE1, CHR 0x9A, CHR 0x80],
      [CHR 0xE2, CHR 0x80, CHR 0x80], [CHR 0xE2, CHR 0x80, CHR 0x81],
      [CHR 0xE2, CHR 0x80, CHR 0x82], [CHR 0xE2, CHR 0x80, CHR 0x83],
      [CHR 0xE2, CHR 0x80, CHR 0x84], [CHR 0xE2, CHR 0x80, CHR 0x85],
      [CHR 0xE2, CHR 0x80, CHR 0x86], [CHR 0xE2, CHR 0x80, CHR 0x87],
      [CHR 0xE2, CHR 0x80, CHR 0x88], [CHR 0xE2, CHR 0x80, CHR 0x89],
      [CHR 0xE2, CHR 0x80, CHR 0x8A],
      [CHR 0xE2, CHR 0x80, CHR 0xA8], [CHR 0xE2, CHR 0x80, CHR 0xA9],
      [CHR 0xE2, CHR 0x80, CHR 0xAF],
      [CHR 0xE2, CHR 0x81, CHR 0x9F],
      [CHR 0xE3, CHR 0x80, CHR 0x80]]"

text \<open>
  The number of bytes of the first rune of \<open>s\<close> when its encoding is in \<open>ws\<close>, and zero
  otherwise; the removal of such runes from the front.
\<close>

definition leadWidth :: "string list \<Rightarrow> string \<Rightarrow> nat" where
  "leadWidth ws s =
     (case find (\<lambda>w. take (length w) s = w) ws of Some w \<Rightarrow> length w | None \<Rightarrow> 0)"

function trimLead :: "string list \<Rightarrow> string \<Rightarrow> string" where
  "trimLead ws s =
     (if s = [] \<or> leadWidth ws s = 0 then s else trimLead ws (drop (leadWidth ws s) s))"
  by pat_completeness auto
termination
  by (relation "measure (\<lambda>(ws, s). length s)") auto

definition TrimLeft :: "string \<Rightarrow> string" where
  "TrimLeft s = trimLead spaces s"

text \<open>The trailing runes are read backwards: the reversed string is trimmed of reversed encodings.\<close>

definition TrimRight :: "string \<Rightarrow> string" where
  "TrimRight s = rev (trimLead (map rev spaces) (rev s))"

definition TrimSpace :: "string \<Rightarrow> string" where
  "TrimSpace s = TrimRight (TrimLeft s)"

definition ReplaceComma :: "string \<Rightarrow> string" where
  "ReplaceComma s = map (\<lambda>c. if c = CHR '','' then CHR ''.'' else c) s"

text \<open>A checked slice read: Go panics when the index is out of range.\<close>

definition index :: "'a list \<Rightarrow> nat \<Rightarrow> error + 'a" where
  "index xs i = (if i < length xs then Inr (xs ! i) else Inl IndexOutOfRange)"

definition indexInt :: "'a list \<Rightarrow> int \<Rightarrow> error + 'a" where
  "indexInt xs i = (if 0 \<le> i \<and> i < int (length xs) then Inr (xs ! nat i) else Inl IndexOutOfRange)"

text \<open>
  \<open>sort.SliceStable\<close>, with a comparison that may panic and that may read the clock:
  the comparison takes the number of readings made so far and returns it updated. Up to
  twenty elements the library sorts by insertion, as here: each element in turn moves
  left while it is less than its left neighbour. (Above twenty elements the library sorts
  blocks of twenty in this way and merges them.) \<open>insertLeft\<close> keeps the sorted part
  before the element in reverse, its nearest neighbour first.
\<close>

fun insertLeft ::
  "('a \<Rightarrow> 'a \<Rightarrow> 's \<Rightarrow> (error + bool) \<times> 's) \<Rightarrow> 'a \<Rightarrow> 'a list \<Rightarrow> 's \<Rightarrow> (error + 'a list) \<times> 's"
where
  "insertLeft lt x [] n = (Inr [x], n)"
| "insertLeft lt x (y # left) n =
     (case lt x y n of
        (Inl e, n') \<Rightarrow> (Inl e, n')
      | (Inr b, n') \<Rightarrow>
          if b then
            (case insertLeft lt x left n' of
               (Inl e, n'') \<Rightarrow> (Inl e, n'')
             | (Inr zs, n'') \<Rightarrow> (Inr (y # zs), n''))
          else (Inr (x # y # left), n'))"

fun insertionSort ::
  "('a \<Rightarrow> 'a \<Rightarrow> 's \<Rightarrow> (error + bool) \<times> 's) \<Rightarrow> 'a list \<Rightarrow> 'a list \<Rightarrow> 's \<Rightarrow> (error + 'a list) \<times> 's"
where
  "insertionSort lt [] placed n = (Inr (rev placed), n)"
| "insertionSort lt (x # rest) placed n =
     (case insertLeft lt x placed n of
        (Inl e, n') \<Rightarrow> (Inl e, n')
      | (Inr placed', n') \<Rightarrow> insertionSort lt rest placed' n')"

definition SliceStable ::
  "('a \<Rightarrow> 'a \<Rightarrow> 's \<Rightarrow> (error + bool) \<times> 's) \<Rightarrow> 'a list \<Rightarrow> 's \<Rightarrow> (error + 'a list) \<times> 's"
where
  "SliceStable lt xs n = insertionSort lt xs [] n"

section \<open>sortHosts\<close>

text \<open>The comparison \<open>strings.ToLower(m.hosts[i].Host) < strings.ToLower(m.hosts[j].Host)\<close>.\<close>

definition lessName :: "model \<Rightarrow> nat \<Rightarrow> nat \<Rightarrow> error + bool" where
  "lessName m i j =
     (case index (hosts m) i of
        Inl e \<Rightarrow> Inl e
      | Inr hi \<Rightarrow>
          (case index (hosts m) j of
             Inl e \<Rightarrow> Inl e
           | Inr hj \<Rightarrow> Inr (ToLower (Host hi) < ToLower (Host hj))))"

definition resolved :: "env \<Rightarrow> string \<Rightarrow> string" where
  "resolved e h = (case LookupIP e h of Some a \<Rightarrow> a | None \<Rightarrow> h)"

definition statusAt :: "model \<Rightarrow> nat \<Rightarrow> bool" where
  "statusAt m i = (if i < length (results m) then status (results m ! i) else False)"

definition replyAt :: "model \<Rightarrow> nat \<Rightarrow> real" where
  "replyAt m i =
     (if i < length (results m) then
        (if status (results m ! i) then reply (results m ! i) else 1000000000)
      else 1000000000)"

text \<open>
  The age of record \<open>i\<close> in seconds: zero without a record or before the first
  observation, and otherwise \<open>time.Since(lastChange).Seconds()\<close>, which reads the clock.
\<close>

definition ageAt :: "env \<Rightarrow> model \<Rightarrow> nat \<Rightarrow> nat \<Rightarrow> real \<times> nat" where
  "ageAt e m i n =
     (if i < length (results m) then
        (if \<not> IsZero (lastChange (results m ! i))
         then (Seconds (clock e n - lastChange (results m ! i)), Suc n) else (0, n))
      else (0, n))"

text \<open>
  The closure \<open>less\<close> of \<open>sortHosts\<close>, on the values \<open>i = idx[a]\<close> and \<open>j = idx[b]\<close>.
  Under the key \<open>age\<close> the age of \<open>i\<close> is computed before the age of \<open>j\<close>, each with
  its own reading of the clock.
\<close>

definition less_idx :: "env \<Rightarrow> model \<Rightarrow> nat \<Rightarrow> nat \<Rightarrow> nat \<Rightarrow> (error + bool) \<times> nat" where
  "less_idx e m i j n =
     (if sortBy m = ''ip'' then
        (case index (hosts m) i of
           Inl x \<Rightarrow> (Inl x, n)
         | Inr hi \<Rightarrow>
             (case index (hosts m) j of
                Inl x \<Rightarrow> (Inl x, n)
              | Inr hj \<Rightarrow> (Inr (resolved e (Host hi) < resolved e (Host hj)), n)))
      else if sortBy m = ''status'' then
        (if statusAt m i \<noteq> statusAt m j then (Inr (statusAt m i \<and> \<not> statusAt m j), n)
         else (lessName m i j, n))
      else if sortBy m = ''reply'' then
        (if replyAt m i \<noteq> replyAt m j then (Inr (replyAt m i < replyAt m j), n)
         else (lessName m i j, n))
      else if sortBy m = ''age'' then
        (case ageAt e m i n of
           (ageA, n1) \<Rightarrow>
             (case ageAt e m j n1 of
                (ageB, n2) \<Rightarrow>
                  if ageA \<noteq> ageB then (Inr (ageA > ageB), n2) else (lessName m i j, n2)))
      else (lessName m i j, n))"

text \<open>
  The loop that applies the sorted order: \<open>newHosts\<close> has \<open>n\<close> entries and \<open>newResults\<close>
  has \<open>len(m.results)\<close> entries, all zero at first; at step \<open>k\<close> the host is read and
  written, and the result is copied when \<open>original < len(m.results)\<close>. Each read and
  write is checked.
\<close>

definition store :: "'a list \<Rightarrow> nat \<Rightarrow> 'a \<Rightarrow> error + 'a list" where
  "store xs k v = (if k < length xs then Inr (xs[k := v]) else Inl IndexOutOfRange)"

fun applyOrder ::
  "model \<Rightarrow> nat \<Rightarrow> nat list \<Rightarrow> Host list \<times> pingResult list \<Rightarrow> error + Host list \<times> pingResult list"
where
  "applyOrder m k [] (newHosts, newResults) = Inr (newHosts, newResults)"
| "applyOrder m k (original # rest) (newHosts, newResults) =
     (case index (hosts m) original of
        Inl e \<Rightarrow> Inl e
      | Inr h \<Rightarrow>
          (case store newHosts k h of
             Inl e \<Rightarrow> Inl e
           | Inr newHosts' \<Rightarrow>
               if original < length (results m) then
                 (case store newResults k (results m ! original) of
                    Inl e \<Rightarrow> Inl e
                  | Inr newResults' \<Rightarrow> applyOrder m (Suc k) rest (newHosts', newResults'))
               else applyOrder m (Suc k) rest (newHosts', newResults)))"

definition zeroHost :: Host where
  "zeroHost = \<lparr>Host = [], Desc = []\<rparr>"

definition sortedIdx :: "env \<Rightarrow> model \<Rightarrow> error + nat list" where
  "sortedIdx e m = fst (SliceStable (less_idx e m) [0 ..< length (hosts m)] 0)"

definition sortHosts :: "env \<Rightarrow> model \<Rightarrow> error + model" where
  "sortHosts e m =
     (case sortedIdx e m of
        Inl x \<Rightarrow> Inl x
      | Inr idx \<Rightarrow>
          (case applyOrder m 0 idx
                  (replicate (length (hosts m)) zeroHost,
                   replicate (length (results m)) zeroResult) of
             Inl x \<Rightarrow> Inl x
           | Inr (newHosts, newResults) \<Rightarrow> Inr (m\<lparr>hosts := newHosts, results := newResults\<rparr>)))"

section \<open>Update\<close>

definition tickCmd :: "model \<Rightarrow> cmd" where
  "tickCmd m = CmdTick (interval m)"

definition pingAllCmd :: "Host list \<Rightarrow> cmd" where
  "pingAllCmd hs = CmdPingAll hs"

definition setMessage :: "string \<Rightarrow> model \<Rightarrow> model" where
  "setMessage s m = m\<lparr>message := s\<rparr>"

text \<open>
  The body of the loop over a delivered batch: the new record of one host from its
  previous record \<open>prev\<close> and the probe outcome \<open>res\<close>, at the time \<open>t\<close> read by
  \<open>time.Now()\<close>. The terminal bell is not modelled.
\<close>

definition reconcile :: "int \<Rightarrow> pingResult \<Rightarrow> pingResult \<Rightarrow> pingResult" where
  "reconcile t prev res =
     (let newRes = \<lparr>status = status res, reply = reply res,
                     lastChange = lastChange prev, flashUntil = 0\<rparr>;
          newRes = (if IsZero (lastChange newRes) then newRes\<lparr>lastChange := t\<rparr> else newRes)
      in if status prev \<noteq> status res
         then newRes\<lparr>lastChange := t, flashUntil := t + 2 * Second\<rparr>
         else if After (flashUntil prev) t then newRes\<lparr>flashUntil := flashUntil prev\<rparr>
         else newRes)"

fun applyBatch :: "int \<Rightarrow> nat \<Rightarrow> pingResult list \<Rightarrow> pingResult list \<Rightarrow> error + pingResult list" where
  "applyBatch t i [] rs = Inr rs"
| "applyBatch t i (res # rest) rs =
     (case index rs i of
        Inl x \<Rightarrow> Inl x
      | Inr prev \<Rightarrow>
          (case store rs i (reconcile t prev res) of
             Inl x \<Rightarrow> Inl x
           | Inr rs' \<Rightarrow> applyBatch t (Suc i) rest rs'))"

definition Update_pingResults :: "env \<Rightarrow> pingResult list \<Rightarrow> model \<Rightarrow> error + model \<times> cmd" where
  "Update_pingResults e batch m =
     (let rs = (if length (results m) \<noteq> length batch
                then replicate (length batch) zeroResult else results m)
      in case applyBatch (now e) 0 batch rs of
           Inl x \<Rightarrow> Inl x
         | Inr rs' \<Rightarrow> Inr (m\<lparr>results := rs'\<rparr>, tickCmd m))"

text \<open>A \<open>case\<close> of a \<open>switch\<close> on the key that lists several keys.\<close>

definition oneOf :: "string \<Rightarrow> string list \<Rightarrow> bool" where
  "oneOf k ks = (k \<in> set ks)"

text \<open>A loop that stops at the first element satisfying a test, and gives its index.\<close>

fun firstIndex :: "('a \<Rightarrow> bool) \<Rightarrow> nat \<Rightarrow> 'a list \<Rightarrow> nat option" where
  "firstIndex P i [] = None"
| "firstIndex P i (x # xs) = (if P x then Some i else firstIndex P (Suc i) xs)"

text \<open>
  \<open>sort.Slice\<close> with a comparison that cannot panic. The library does not promise a
  stable order; up to twelve elements it sorts by insertion, which is stable.
\<close>

fun insertSlice :: "('a \<Rightarrow> 'a \<Rightarrow> bool) \<Rightarrow> 'a \<Rightarrow> 'a list \<Rightarrow> 'a list" where
  "insertSlice lt x [] = [x]"
| "insertSlice lt x (y # ys) = (if lt y x then y # insertSlice lt x ys else x # y # ys)"

fun Slice :: "('a \<Rightarrow> 'a \<Rightarrow> bool) \<Rightarrow> 'a list \<Rightarrow> 'a list" where
  "Slice lt [] = []"
| "Slice lt (x # xs) = insertSlice lt x (Slice lt xs)"

definition lessHost :: "Host \<Rightarrow> Host \<Rightarrow> bool" where
  "lessHost a b = (ToLower (Host a) < ToLower (Host b))"

definition Update_modeList :: "env \<Rightarrow> string \<Rightarrow> model \<Rightarrow> error + model \<times> cmd" where
  "Update_modeList e k m =
     (if oneOf k [''ctrl+c'', ''q'', ''Q''] then Inr (m\<lparr>quitting := True\<rparr>, CmdQuit)
      else if oneOf k [''up'', ''k'', ''K''] then
        Inr (if cursor m > 0 then m\<lparr>cursor := cursor m - 1\<rparr> else m, CmdNone)
      else if oneOf k [''down'', ''j'', ''J''] then
        Inr (if cursor m < int (length (hosts m)) - 1 then m\<lparr>cursor := cursor m + 1\<rparr> else m,
             CmdNone)
      else if oneOf k [''a'', ''A''] then
        Inr (m\<lparr>mode := modeAdd,
               inputHost := textinput_New\<lparr>Placeholder := ''Host'', Focused := True\<rparr>,
               inputDesc := textinput_New\<lparr>Placeholder := ''Description''\<rparr>\<rparr>, CmdNone)
      else if oneOf k [''e'', ''E''] then
        (if length (hosts m) = 0 then Inr (m, CmdNone)
         else (case indexInt (hosts m) (cursor m) of
                 Inl x \<Rightarrow> Inl x
               | Inr h \<Rightarrow>
                   Inr (m\<lparr>mode := modeEdit, editIndex := cursor m,
                          inputHost := textinput_New\<lparr>Value := Host h, Focused := True\<rparr>,
                          inputDesc := textinput_New\<lparr>Value := Desc h\<rparr>\<rparr>, CmdNone)))
      else if oneOf k [''d'', ''D''] then
        (if length (hosts m) = 0 then Inr (m, CmdNone)
         else Inr (m\<lparr>mode := modeConfirmDelete, confirmIndex := cursor m\<rparr>, CmdNone))
      else if oneOf k [''s'', ''S''] then
        (case saveHostsToFile e (hosts m) of
           Some err \<Rightarrow> Inr (setMessage (''Failed to save: '' @ err) m, CmdNone)
         | None \<Rightarrow> Inr (setMessage ''Hosts saved'' m, CmdNone))
      else if oneOf k [''r'', ''R''] then
        (case loadHostsFromFile e of
           Some h \<Rightarrow>
             (case sortHosts e
                     (setMessage ''Hosts reloaded''
                        (m\<lparr>hosts := h, results := replicate (length h) zeroResult, cursor := 0\<rparr>)) of
                Inl x \<Rightarrow> Inl x
              | Inr m' \<Rightarrow> Inr (m', pingAllCmd (hosts m')))
         | None \<Rightarrow> Inr (m, CmdNone))
      else if oneOf k [''o'', ''O''] then
        Inr (m\<lparr>mode := modeOptions,
               optInterval :=
                 textinput_New\<lparr>Placeholder :=
                                  ''Interval (0.5'' @ [CHR 0xE2, CHR 0x80, CHR 0x93] @ ''5 s)'',
                                Value := formatSeconds e (interval m), Focused := True\<rparr>,
               optSortIndex :=
                 (case firstIndex (\<lambda>choice. choice = sortBy m) 0 sortChoices of
                    Some i \<Rightarrow> int i | None \<Rightarrow> 0),
               optFocus := 0\<rparr>, CmdNone)
      else Inr (m, CmdNone))"

text \<open>Enter on the description field of the add and edit forms.\<close>

definition confirmAddEdit :: "model \<Rightarrow> error + model \<times> cmd" where
  "confirmAddEdit m =
     (let hostVal = TrimSpace (Value (inputHost m));
          descVal = TrimSpace (Value (inputDesc m))
      in if hostVal = [] then Inr (setMessage ''Host cannot be empty'' m, CmdNone)
         else
           (let hs = (if mode m = modeAdd then hosts m @ [\<lparr>Host = hostVal, Desc = descVal\<rparr>]
                      else if mode m = modeEdit then
                        (if 0 \<le> editIndex m \<and> editIndex m < int (length (hosts m))
                         then (hosts m)[nat (editIndex m) := \<lparr>Host = hostVal, Desc = descVal\<rparr>]
                         else hosts m)
                      else hosts m);
                hs' = Slice lessHost hs;
                c = (case firstIndex (\<lambda>h. Host h = hostVal) 0 hs' of
                       Some i \<Rightarrow> int i | None \<Rightarrow> 0)
            in Inr (m\<lparr>hosts := hs', results := replicate (length hs') zeroResult,
                      cursor := c, mode := modeList\<rparr>, pingAllCmd hs')))"

definition Update_modeAddEdit :: "env \<Rightarrow> string \<Rightarrow> model \<Rightarrow> error + model \<times> cmd" where
  "Update_modeAddEdit e k m =
     (if Focused (inputHost m) then
        (if k = ''tab'' then
           Inr (m\<lparr>inputHost := (inputHost m)\<lparr>Focused := False\<rparr>,
                  inputDesc := (inputDesc m)\<lparr>Focused := True\<rparr>\<rparr>, CmdNone)
         else if k = ''esc'' then Inr (m\<lparr>mode := modeList\<rparr>, CmdNone)
         else if k = ''enter'' then
           Inr (m\<lparr>inputHost := (inputHost m)\<lparr>Focused := False\<rparr>,
                  inputDesc := (inputDesc m)\<lparr>Focused := True\<rparr>\<rparr>, CmdNone)
         else Inr (m\<lparr>inputHost := textinput_Update e k (inputHost m)\<rparr>, CmdInput))
      else
        (if k = ''tab'' then
           Inr (m\<lparr>inputDesc := (inputDesc m)\<lparr>Focused := False\<rparr>,
                  inputHost := (inputHost m)\<lparr>Focused := True\<rparr>\<rparr>, CmdNone)
         else if k = ''esc'' then Inr (m\<lparr>mode := modeList\<rparr>, CmdNone)
         else if k = ''enter'' then confirmAddEdit m
         else Inr (m\<lparr>inputDesc := textinput_Update e k (inputDesc m)\<rparr>, CmdInput)))"

definition Update_modeConfirmDelete :: "string \<Rightarrow> model \<Rightarrow> error + model \<times> cmd" where
  "Update_modeConfirmDelete k m =
     (if oneOf k [''y'', ''Y''] then
        (if 0 \<le> confirmIndex m \<and> confirmIndex m < int (length (hosts m)) then
           (let ci = nat (confirmIndex m);
                hs = take ci (hosts m) @ drop (ci + 1) (hosts m);
                rs = (if confirmIndex m < int (length (results m))
                      then take ci (results m) @ drop (ci + 1) (results m) else results m);
                c = (if cursor m \<ge> int (length hs) \<and> cursor m > 0 then cursor m - 1 else cursor m)
            in Inr (setMessage ''Host deleted'' (m\<lparr>hosts := hs, results := rs, cursor := c\<rparr>)
                      \<lparr>mode := modeList\<rparr>, CmdNone))
         else Inr (m\<lparr>mode := modeList\<rparr>, CmdNone))
      else if oneOf k [''n'', ''N'', ''esc''] then Inr (m\<lparr>mode := modeList\<rparr>, CmdNone)
      else Inr (m, CmdNone))"

text \<open>
  The remapping loop of the options dialog: row \<open>h\<close> takes the record of the first old
  row with the same address whose index is below \<open>len(oldResults)\<close>, and stays zero
  when there is none.
\<close>

definition remap :: "Host list \<Rightarrow> pingResult list \<Rightarrow> Host \<Rightarrow> pingResult" where
  "remap oldHosts oldResults h =
     (case firstIndex (\<lambda>(j, oh). Host h = Host oh \<and> j < length oldResults) 0
             (zip [0 ..< length oldHosts] oldHosts) of
        Some j \<Rightarrow> oldResults ! j
      | None \<Rightarrow> zeroResult)"

text \<open>Enter on the sort list of the options dialog.\<close>

definition confirmOptions :: "env \<Rightarrow> model \<Rightarrow> error + model \<times> cmd" where
  "confirmOptions e m =
     (let intervalStr = TrimSpace (Value (optInterval m));
          normalized = ReplaceComma intervalStr
      in case ParseDuration e (normalized @ ''s'') of
           None \<Rightarrow>
             Inr (setMessage ''Invalid interval; please specify seconds between 0.5 and 5'' m,
                  CmdNone)
         | Some dur \<Rightarrow>
             if Seconds dur < 0.5 \<or> Seconds dur > 5 then
               Inr (setMessage ''Interval must be between 0.5 and 5 seconds'' m, CmdNone)
             else
               (case indexInt sortChoices (optSortIndex m) of
                  Inl x \<Rightarrow> Inl x
                | Inr sortStr \<Rightarrow>
                    (let m1 = m\<lparr>interval := dur, sortBy := sortStr\<rparr>;
                         oldHosts = hosts m1;
                         oldResults = results m1
                     in case sortHosts e m1 of
                          Inl x \<Rightarrow> Inl x
                        | Inr m2 \<Rightarrow>
                            Inr (m2\<lparr>results := map (remap oldHosts oldResults) (hosts m2),
                                    cursor := 0, mode := modeList\<rparr>,
                                 pingAllCmd (hosts m2)))))"

definition Update_modeOptions :: "env \<Rightarrow> string \<Rightarrow> model \<Rightarrow> error + model \<times> cmd" where
  "Update_modeOptions e k m =
     (if optFocus m = 0 then
        (if k = ''tab'' then
           Inr (m\<lparr>optInterval := (optInterval m)\<lparr>Focused := False\<rparr>, optFocus := 1\<rparr>, CmdNone)
         else if k = ''esc'' then Inr (m\<lparr>mode := modeList\<rparr>, CmdNone)
         else if k = ''enter'' then
           Inr (m\<lparr>optInterval := (optInterval m)\<lparr>Focused := False\<rparr>, optFocus := 1\<rparr>, CmdNone)
         else Inr (m\<lparr>optInterval := textinput_Update e k (optInterval m)\<rparr>, CmdInput))
      else
        (if k = ''tab'' then
           Inr (m\<lparr>optFocus := 0, optInterval := (optInterval m)\<lparr>Focused := True\<rparr>\<rparr>, CmdNone)
         else if k = ''esc'' then Inr (m\<lparr>mode := modeList\<rparr>, CmdNone)
         else if k = ''enter'' then confirmOptions e m
         else if oneOf k [''up'', ''k'', ''K''] then
           Inr (if optSortIndex m > 0 then m\<lparr>optSortIndex := optSortIndex m - 1\<rparr> else m, CmdNone)
         else if oneOf k [''down'', ''j'', ''J''] then
           Inr (if optSortIndex m < int (length sortChoices) - 1
                then m\<lparr>optSortIndex := optSortIndex m + 1\<rparr> else m, CmdNone)
         else Inr (m, CmdNone)))"

definition Update :: "env \<Rightarrow> msg \<Rightarrow> model \<Rightarrow> error + model \<times> cmd" where
  "Update e ms m =
     (case ms of
        WindowSizeMsg w h \<Rightarrow> Inr (m\<lparr>width := w, height := h\<rparr>, CmdNone)
      | tickMsg t \<Rightarrow> Inr (m, pingAllCmd (hosts m))
      | pingResultsMsg batch \<Rightarrow> Update_pingResults e batch m
      | KeyMsg k \<Rightarrow>
          (if mode m = modeList then Update_modeList e k m
           else if mode m = modeAdd \<or> mode m = modeEdit then Update_modeAddEdit e k m
           else if mode m = modeConfirmDelete then Update_modeConfirmDelete k m
           else Update_modeOptions e k m)
      | OtherMsg \<Rightarrow> Inr (m, CmdNone))"

text \<open>
  The model that \<open>main\<close> hands to the program for a loaded host list, and a run of
  \<open>Update\<close> over a sequence of events, each with what the step observes.
\<close>

definition main_model :: "env \<Rightarrow> Host list \<Rightarrow> error + model" where
  "main_model e hs =
     sortHosts e
       \<lparr>hosts = hs, results = replicate (length hs) zeroResult, cursor = 0, width = 0,
        height = 0, mode = modeList, inputHost = textinput_New, inputDesc = textinput_New,
        editIndex = 0, confirmIndex = 0, message = [], interval = 5 * Second,
        quitting = False, sortBy = ''name'', optInterval = textinput_New,
        optSortIndex = 0, optFocus = 0\<rparr>"

fun run :: "(env \<times> msg) list \<Rightarrow> model \<Rightarrow> error + model" where
  "run [] m = Inr m"
| "run ((e, ms) # evs) m =
     (case Update e ms m of Inl x \<Rightarrow> Inl x | Inr (m', c) \<Rightarrow> run evs m')"

section \<open>Definitions used in the statements and proofs\<close>

text \<open>Concrete states and events, for the instances evaluated below.\<close>

text \<open>
  A step at the instant 1000 s, with a clock that advances by 100 ns from one reading to
  the next, no address resolved, no duration parsed and no hosts file; a model of two
  hosts, the first up and the second down since the instant 100 s;
  a batch for these two hosts, and a batch of a round over three hosts.
\<close>

definition env0 :: env where
  "env0 = \<lparr>now = 1000 * Second, clock = (\<lambda>k. 1000 * Second + 100 * int k),
            LookupIP = (\<lambda>h. None), ParseDuration = (\<lambda>s. None),
            loadHostsFromFile = None, saveHostsToFile = (\<lambda>hs. None),
            textinput_Update = (\<lambda>k t. t), formatSeconds = (\<lambda>d. ''5.0'')\<rparr>"

definition example_model :: model where
  "example_model =
     \<lparr>hosts = [\<lparr>Host = ''a.example'', Desc = ''A''\<rparr>, \<lparr>Host = ''b.example'', Desc = ''B''\<rparr>],
      results = [\<lparr>status = True, reply = 12.3, lastChange = 100 * Second, flashUntil = 0\<rparr>,
                 \<lparr>status = False, reply = -1, lastChange = 100 * Second, flashUntil = 0\<rparr>],
      cursor = 0, width = 80, height = 24, mode = modeList,
      inputHost = textinput_New, inputDesc = textinput_New, editIndex = 0, confirmIndex = 0,
      message = [], interval = 5 * Second, quitting = False, sortBy = ''name'',
      optInterval = textinput_New, optSortIndex = 0, optFocus = 0\<rparr>"

definition example_batch :: "pingResult list" where
  "example_batch = [\<lparr>status = True, reply = 11.9, lastChange = 0, flashUntil = 0\<rparr>,
                    \<lparr>status = True, reply = 3.5, lastChange = 0, flashUntil = 0\<rparr>]"

definition stale_batch :: "pingResult list" where
  "stale_batch = [\<lparr>status = True, reply = 11.9, lastChange = 0, flashUntil = 0\<rparr>,
                  \<lparr>status = False, reply = -1, lastChange = 0, flashUntil = 0\<rparr>,
                  \<lparr>status = True, reply = 3.5, lastChange = 0, flashUntil = 0\<rparr>]"

text \<open>
  Two hosts in reverse name order with a single status record, and two reachable hosts of
  which the second has no parsed latency, under the sort key \<open>reply\<close>.
\<close>

definition short_model :: model where
  "short_model =
     example_model\<lparr>hosts := [\<lparr>Host = ''b.example'', Desc = ''B''\<rparr>, \<lparr>Host = ''a.example'', Desc = ''A''\<rparr>],
                   results := [zeroResult]\<rparr>"

definition unparsed_model :: model where
  "unparsed_model =
     example_model\<lparr>sortBy := ''reply'',
                   results := [\<lparr>status = True, reply = 12.3, lastChange = 100 * Second, flashUntil = 0\<rparr>,
                               \<lparr>status = True, reply = -1, lastChange = 100 * Second, flashUntil = 0\<rparr>]\<rparr>"

text \<open>
  The bounds of the cursor: never negative, zero when there is no host, and below the
  number of hosts when there is one.
\<close>

definition cursor_ok :: "model \<Rightarrow> bool" where
  "cursor_ok m =
     (0 \<le> cursor m \<and> (if hosts m = [] then cursor m = 0 else cursor m < int (length (hosts m))))"

text \<open>
  A delivered batch is fresh when it has the length of the current status sequence;
  a run is fresh when every batch delivered along it is.
\<close>

definition fresh :: "msg \<Rightarrow> model \<Rightarrow> bool" where
  "fresh ms m = (case ms of pingResultsMsg batch \<Rightarrow> length batch = length (results m) | _ \<Rightarrow> True)"

fun fresh_run :: "(env \<times> msg) list \<Rightarrow> model \<Rightarrow> bool" where
  "fresh_run [] m = True"
| "fresh_run ((e, ms) # evs) m =
     (fresh ms m \<and> (case Update e ms m of Inl x \<Rightarrow> True | Inr (m', c) \<Rightarrow> fresh_run evs m'))"

text \<open>
  A start with two hosts, and two runs from it: in the first a host is deleted while the
  first probe round is in flight, in the second after its batch has been delivered.
\<close>

definition example_hosts :: "Host list" where
  "example_hosts = [\<lparr>Host = ''b.example'', Desc = ''B''\<rparr>, \<lparr>Host = ''a.example'', Desc = ''A''\<rparr>]"

definition initial_example :: model where
  "initial_example =
     \<lparr>hosts = [\<lparr>Host = ''a.example'', Desc = ''A''\<rparr>, \<lparr>Host = ''b.example'', Desc = ''B''\<rparr>],
      results = [zeroResult, zeroResult],
      cursor = 0, width = 0, height = 0, mode = modeList,
      inputHost = textinput_New, inputDesc = textinput_New, editIndex = 0, confirmIndex = 0,
      message = [], interval = 5 * Second, quitting = False, sortBy = ''name'',
      optInterval = textinput_New, optSortIndex = 0, optFocus = 0\<rparr>"

definition stale_events :: "(env \<times> msg) list" where
  "stale_events = [(env0, KeyMsg ''d''), (env0, KeyMsg ''y''), (env0, pingResultsMsg example_batch)]"

definition fresh_events :: "(env \<times> msg) list" where
  "fresh_events = [(env0, pingResultsMsg example_batch), (env0, KeyMsg ''d''), (env0, KeyMsg ''y'')]"

text \<open>The confirmation of the deletion of the last row, with the cursor on it.\<close>

definition delete_model :: model where
  "delete_model = example_model\<lparr>cursor := 1, mode := modeConfirmDelete, confirmIndex := 1\<rparr>"

text \<open>
  The values of \<open>time.ParseDuration\<close> on five strings, and no value elsewhere; the
  options dialog with a given interval string and the sort list focused.
\<close>

definition exampleParseDuration :: "string \<Rightarrow> int option" where
  "exampleParseDuration s =
     (if s = ''0.4s'' then Some 400000000
      else if s = ''6s'' then Some 6000000000
      else if s = ''0.5s'' then Some 500000000
      else if s = ''5.0s'' then Some 5000000000
      else if s = ''2.5s'' then Some 2500000000
      else None)"

definition parse_env :: env where
  "parse_env = env0\<lparr>ParseDuration := exampleParseDuration\<rparr>"

definition options_model :: "string \<Rightarrow> model" where
  "options_model s =
     example_model\<lparr>mode := modeOptions, optFocus := 1, optSortIndex := 2,
                   optInterval := \<lparr>Value = s, Focused = False, Placeholder = []\<rparr>\<rparr>"

text \<open>
  The add form with a given address, the description field focused, under the sort key
  \<open>ip\<close>, and a resolver that orders \<open>b.example\<close> before \<open>a.example\<close>.
\<close>

definition add_model :: "string \<Rightarrow> model" where
  "add_model s =
     example_model\<lparr>mode := modeAdd, sortBy := ''ip'',
                   hosts := [\<lparr>Host = ''a.example'', Desc = ''A''\<rparr>],
                   results := [\<lparr>status = True, reply = 12.3, lastChange = 100 * Second, flashUntil = 0\<rparr>],
                   inputHost := \<lparr>Value = s, Focused = False, Placeholder = ''Host''\<rparr>,
                   inputDesc := \<lparr>Value = ''B'', Focused = True, Placeholder = ''Description''\<rparr>\<rparr>"

definition ip_env :: env where
  "ip_env = env0\<lparr>LookupIP := (\<lambda>h. if h = ''a.example'' then Some ''10.0.0.2''
                                   else if h = ''b.example'' then Some ''10.0.0.1'' else None)\<rparr>"

text \<open>
  A run of deliveries: each batch with what its step observes. Two later steps, at the
  instants 1001 s and 1003 s, and a first batch that finds \<open>a.example\<close> reachable with
  a latency of 12.3 ms and \<open>b.example\<close> unreachable.
\<close>

definition deliveries :: "(env \<times> pingResult list) list \<Rightarrow> (env \<times> msg) list" where
  "deliveries ds = map (\<lambda>(e, batch). (e, pingResultsMsg batch)) ds"

definition env1 :: env where
  "env1 = env0\<lparr>now := 1001 * Second\<rparr>"

definition env3 :: env where
  "env3 = env0\<lparr>now := 1003 * Second\<rparr>"

definition first_batch :: "pingResult list" where
  "first_batch = [\<lparr>status = True, reply = 12.3, lastChange = 0, flashUntil = 0\<rparr>,
                  \<lparr>status = False, reply = -1, lastChange = 0, flashUntil = 0\<rparr>]"

text \<open>
  Two hosts first observed in the same batch, in reverse name order, under the key
  \<open>age\<close>; a clock that does not advance between two readings. Two hosts whose last
  changes are 1 ms apart, the newer first; a step in which 2 ms pass between the first
  two readings of the clock.
\<close>

definition age_model :: model where
  "age_model =
     example_model\<lparr>sortBy := ''age'',
        hosts := [\<lparr>Host = ''b.example'', Desc = ''B''\<rparr>, \<lparr>Host = ''a.example'', Desc = ''A''\<rparr>],
        results := [\<lparr>status = True, reply = 3.5, lastChange = 100 * Second, flashUntil = 0\<rparr>,
                    \<lparr>status = True, reply = 12.3, lastChange = 100 * Second, flashUntil = 0\<rparr>]\<rparr>"

definition coarse_env :: env where
  "coarse_env = env0\<lparr>clock := (\<lambda>k. 1001 * Second)\<rparr>"

definition aged_model :: model where
  "aged_model =
     example_model\<lparr>sortBy := ''age'',
        hosts := [\<lparr>Host = ''a.example'', Desc = ''A''\<rparr>, \<lparr>Host = ''b.example'', Desc = ''B''\<rparr>],
        results := [\<lparr>status = True, reply = 12.3, lastChange = 100 * Second + 1000000, flashUntil = 0\<rparr>,
                    \<lparr>status = True, reply = 3.5, lastChange = 100 * Second, flashUntil = 0\<rparr>]\<rparr>"

definition delayed_env :: env where
  "delayed_env = env0\<lparr>clock := (\<lambda>k. if k = 0 then 1000 * Second else 1000 * Second + 2000000 + 100 * int k)\<rparr>"

text \<open>
  The options dialog over two rows with the same address, and a step in which the hosts
  file holds the two example hosts.
\<close>

definition twin_model :: model where
  "twin_model =
     (options_model ''0.5'')\<lparr>optSortIndex := 0,
        hosts := [\<lparr>Host = ''a.example'', Desc = ''first''\<rparr>, \<lparr>Host = ''a.example'', Desc = ''second''\<rparr>]\<rparr>"

definition reload_env :: env where
  "reload_env = env0\<lparr>loadHostsFromFile := Some example_hosts\<rparr>"

text \<open>The edit form for row 0 with a new address, the description field focused.\<close>

definition edit_model :: model where
  "edit_model =
     example_model\<lparr>mode := modeEdit, editIndex := 0,
                   inputHost := \<lparr>Value = ''c.example '', Focused = False, Placeholder = []\<rparr>,
                   inputDesc := \<lparr>Value = ''C'', Focused = True, Placeholder = []\<rparr>\<rparr>"

section \<open>Delivery of a probe batch\<close>

lemma applyBatch_spec:
  "i + length batch \<le> length rs \<Longrightarrow>
   \<exists>rs'. applyBatch t i batch rs = Inr rs' \<and> length rs' = length rs \<and>
     (\<forall>k < length rs. rs' ! k =
        (if i \<le> k \<and> k < i + length batch then reconcile t (rs ! k) (batch ! (k - i)) else rs ! k))"
proof (induction batch arbitrary: i rs)
  case Nil
  then show ?case by auto
next
  case (Cons res rest)
  let ?rs1 = "rs[i := reconcile t (rs ! i) res]"
  have i: "i < length rs" using Cons.prems by simp
  have "Suc i + length rest \<le> length ?rs1" using Cons.prems by simp
  from Cons.IH[OF this] obtain rs' where
    a: "applyBatch t (Suc i) rest ?rs1 = Inr rs'" and l: "length rs' = length ?rs1"
    and n: "\<forall>k < length ?rs1. rs' ! k =
        (if Suc i \<le> k \<and> k < Suc i + length rest then reconcile t (?rs1 ! k) (rest ! (k - Suc i)) else ?rs1 ! k)"
    by blast
  have "applyBatch t i (res # rest) rs = Inr rs'"
    using i a by (simp add: index_def store_def)
  moreover have "length rs' = length rs" using l by simp
  moreover have "\<forall>k < length rs. rs' ! k =
        (if i \<le> k \<and> k < i + length (res # rest) then reconcile t (rs ! k) ((res # rest) ! (k - i)) else rs ! k)"
  proof (intro allI impI)
    fix k assume k: "k < length rs"
    show "rs' ! k = (if i \<le> k \<and> k < i + length (res # rest) then reconcile t (rs ! k) ((res # rest) ! (k - i)) else rs ! k)"
    proof (cases "k = i")
      case True
      then show ?thesis using n k i by simp
    next
      case False
      then show ?thesis using n k i by (auto simp: nth_Cons')
    qed
  qed
  ultimately show ?case by blast
qed

lemma Update_pingResults_matching:
  assumes "length batch = length (results m)"
  shows "\<exists>m'. Update e (pingResultsMsg batch) m = Inr (m', tickCmd m) \<and>
      m' = m\<lparr>results := results m'\<rparr> \<and>
      length (results m') = length batch \<and>
      (\<forall>k < length batch. results m' ! k = reconcile (now e) (results m ! k) (batch ! k))"
proof -
  have "0 + length batch \<le> length (results m)" using assms by simp
  from applyBatch_spec[OF this, of "now e"] obtain rs' where
    a: "applyBatch (now e) 0 batch (results m) = Inr rs'" and l: "length rs' = length (results m)"
    and n: "\<forall>k < length (results m). rs' ! k =
        (if 0 \<le> k \<and> k < 0 + length batch then reconcile (now e) (results m ! k) (batch ! (k - 0)) else results m ! k)"
    by blast
  have "Update e (pingResultsMsg batch) m = Inr (m\<lparr>results := rs'\<rparr>, tickCmd m)"
    using a assms by (simp add: Update_def Update_pingResults_def)
  then show ?thesis using l n assms by auto
qed



lemma reconcile_status: "status (reconcile t prev res) = status res"
  by (simp add: reconcile_def Let_def)

lemma reconcile_reply: "reply (reconcile t prev res) = reply res"
  by (simp add: reconcile_def Let_def)

lemma reconcile_lastChange:
  "lastChange (reconcile t prev res) =
     (if IsZero (lastChange prev) \<or> status res \<noteq> status prev then t else lastChange prev)"
  by (auto simp: reconcile_def Let_def)

lemma reconcile_flashUntil:
  "flashUntil (reconcile t prev res) =
     (if status res \<noteq> status prev then t + 2 * Second
      else if After (flashUntil prev) t then flashUntil prev else 0)"
  by (auto simp: reconcile_def Let_def)

lemma reconcile_zero:
  "reconcile t zeroResult res =
     \<lparr>status = status res, reply = reply res, lastChange = t,
      flashUntil = (if status res then t + 2 * Second else 0)\<rparr>"
  by (simp add: reconcile_def zeroResult_def Let_def IsZero_def After_def)


lemma run_deliveries_same:
  assumes "i < length (results m)"
    and "\<forall>(e, batch) \<in> set ds. length batch = length (results m) \<and> status (batch ! i) = status (results m ! i)"
  shows "\<exists>m'. run (deliveries ds) m = Inr m' \<and>
      length (results m') = length (results m) \<and>
      status (results m' ! i) = status (results m ! i) \<and>
      (\<not> IsZero (lastChange (results m ! i)) \<longrightarrow>
         lastChange (results m' ! i) = lastChange (results m ! i)) \<and>
      flashUntil (results m' ! i) =
        (if \<forall>(e, batch) \<in> set ds. After (flashUntil (results m ! i)) (now e)
         then flashUntil (results m ! i) else 0)"
  using assms
proof (induction ds arbitrary: m)
  case Nil
  then show ?case by (simp add: deliveries_def)
next
  case (Cons d ds)
  obtain e batch where d: "d = (e, batch)" by (cases d)
  have len: "length batch = length (results m)" and same: "status (batch ! i) = status (results m ! i)"
    using Cons.prems(2) d by auto
  from Update_pingResults_matching[OF len, of e] obtain m1 where
    u: "Update e (pingResultsMsg batch) m = Inr (m1, tickCmd m)"
    and l1: "length (results m1) = length batch"
    and r1: "\<forall>k < length batch. results m1 ! k = reconcile (now e) (results m ! k) (batch ! k)"
    by blast
  have ri: "results m1 ! i = reconcile (now e) (results m ! i) (batch ! i)"
    using r1 Cons.prems(1) len by simp
  have s1: "status (results m1 ! i) = status (results m ! i)"
    using ri same by (simp add: reconcile_status)
  have c1: "\<not> IsZero (lastChange (results m ! i)) \<longrightarrow>
      lastChange (results m1 ! i) = lastChange (results m ! i)"
    using ri same by (simp add: reconcile_lastChange)
  have f1: "flashUntil (results m1 ! i) =
      (if After (flashUntil (results m ! i)) (now e) then flashUntil (results m ! i) else 0)"
    using ri same by (simp add: reconcile_flashUntil)
  have i1: "i < length (results m1)" using Cons.prems(1) l1 len by simp
  have "\<forall>(e, batch) \<in> set ds. length batch = length (results m1) \<and> status (batch ! i) = status (results m1 ! i)"
    using Cons.prems(2) l1 len s1 by auto
  from Cons.IH[OF i1 this] obtain m' where
    r: "run (deliveries ds) m1 = Inr m'"
    and l: "length (results m') = length (results m1)"
    and s: "status (results m' ! i) = status (results m1 ! i)"
    and c: "\<not> IsZero (lastChange (results m1 ! i)) \<longrightarrow>
         lastChange (results m' ! i) = lastChange (results m1 ! i)"
    and f: "flashUntil (results m' ! i) =
        (if \<forall>(e, batch) \<in> set ds. After (flashUntil (results m1 ! i)) (now e)
         then flashUntil (results m1 ! i) else 0)"
    by blast
  have "run (deliveries (d # ds)) m = Inr m'"
    using u r d by (simp add: deliveries_def)
  moreover have "length (results m') = length (results m)" using l l1 len by simp
  moreover have "status (results m' ! i) = status (results m ! i)" using s s1 by simp
  moreover have "\<not> IsZero (lastChange (results m ! i)) \<longrightarrow>
         lastChange (results m' ! i) = lastChange (results m ! i)"
    using c c1 by auto
  moreover have "flashUntil (results m' ! i) =
        (if \<forall>(e, batch) \<in> set (d # ds). After (flashUntil (results m ! i)) (now e)
         then flashUntil (results m ! i) else 0)"
    unfolding f f1 using d by auto
  ultimately show ?case by blast
qed

text \<open>
  Claim C6. When a batch of the length of the status sequence is delivered, the record of
  every host \<open>i\<close> takes the reachability and the latency of outcome \<open>i\<close>, and gets as
  \<open>lastChange\<close> the batch time if the host was never observed (its \<open>lastChange\<close> is
  the zero time) or if the reachability of the batch differs from the recorded one, and
  keeps its previous \<open>lastChange\<close> otherwise. Across the run of batches that follow and
  repeat that reachability, delivered at any times, \<open>lastChange\<close> stays what the first
  batch made it (the clock never reads the zero time).
\<close>

theorem lastChange_on_batch:
  "(length batch = length (results m) \<and> i < length batch \<longrightarrow>
      (\<exists>m'. Update e (pingResultsMsg batch) m = Inr (m', tickCmd m) \<and>
         status (results m' ! i) = status (batch ! i) \<and>
         reply (results m' ! i) = reply (batch ! i) \<and>
         lastChange (results m' ! i) =
           (if IsZero (lastChange (results m ! i)) \<or> status (batch ! i) \<noteq> status (results m ! i)
            then now e else lastChange (results m ! i)))) \<and>
   (length batch = length (results m) \<and> i < length batch \<and> \<not> IsZero (now e) \<and>
    (\<forall>(e', batch') \<in> set ds.
        length batch' = length (results m) \<and> status (batch' ! i) = status (batch ! i)) \<longrightarrow>
      (\<exists>m'. run (deliveries ((e, batch) # ds)) m = Inr m' \<and>
         status (results m' ! i) = status (batch ! i) \<and>
         lastChange (results m' ! i) =
           (if IsZero (lastChange (results m ! i)) \<or> status (batch ! i) \<noteq> status (results m ! i)
            then now e else lastChange (results m ! i))))"
proof (intro conjI impI)
  assume a: "length batch = length (results m) \<and> i < length batch"
  then have len: "length batch = length (results m)" by simp
  from Update_pingResults_matching[OF len, of e] a
  show "\<exists>m'. Update e (pingResultsMsg batch) m = Inr (m', tickCmd m) \<and>
         status (results m' ! i) = status (batch ! i) \<and>
         reply (results m' ! i) = reply (batch ! i) \<and>
         lastChange (results m' ! i) =
           (if IsZero (lastChange (results m ! i)) \<or> status (batch ! i) \<noteq> status (results m ! i)
            then now e else lastChange (results m ! i))"
    by (auto simp: reconcile_lastChange reconcile_status reconcile_reply)
next
  assume a: "length batch = length (results m) \<and> i < length batch \<and> \<not> IsZero (now e) \<and>
    (\<forall>(e', batch') \<in> set ds.
        length batch' = length (results m) \<and> status (batch' ! i) = status (batch ! i))"
  then have len: "length batch = length (results m)" and i: "i < length batch"
    and t: "\<not> IsZero (now e)" by simp_all
  from Update_pingResults_matching[OF len, of e] obtain m1 where
    u: "Update e (pingResultsMsg batch) m = Inr (m1, tickCmd m)"
    and l1: "length (results m1) = length batch"
    and r1: "results m1 ! i = reconcile (now e) (results m ! i) (batch ! i)"
    using i by blast
  have s1: "status (results m1 ! i) = status (batch ! i)" using r1 by (simp add: reconcile_status)
  have c1: "lastChange (results m1 ! i) =
      (if IsZero (lastChange (results m ! i)) \<or> status (batch ! i) \<noteq> status (results m ! i)
       then now e else lastChange (results m ! i))"
    using r1 by (simp add: reconcile_lastChange)
  have z1: "\<not> IsZero (lastChange (results m1 ! i))" unfolding c1 using t by simp
  have i1: "i < length (results m1)" using i l1 by simp
  have "\<forall>(e', batch') \<in> set ds.
      length batch' = length (results m1) \<and> status (batch' ! i) = status (results m1 ! i)"
    using a l1 len s1 by auto
  from run_deliveries_same[OF i1 this] z1 obtain m' where
    r: "run (deliveries ds) m1 = Inr m'"
    and s: "status (results m' ! i) = status (results m1 ! i)"
    and c: "lastChange (results m' ! i) = lastChange (results m1 ! i)"
    by blast
  have "run (deliveries ((e, batch) # ds)) m = Inr m'" using u r by (simp add: deliveries_def)
  then show "\<exists>m'. run (deliveries ((e, batch) # ds)) m = Inr m' \<and>
         status (results m' ! i) = status (batch ! i) \<and>
         lastChange (results m' ! i) =
           (if IsZero (lastChange (results m ! i)) \<or> status (batch ! i) \<noteq> status (results m ! i)
            then now e else lastChange (results m ! i))"
    using s s1 c c1 by auto
qed

text \<open>
  Instances: host 1 goes from down to up and takes the batch time, and keeps it over the
  two batches that follow and find it up; host 0 stays up over the three batches and
  keeps the time of its last change.
\<close>

theorem lastChange_on_batch_witness:
  "length example_batch = length (results example_model) \<and> (1::nat) < length example_batch \<and>
   \<not> IsZero (now env0) \<and>
   (\<exists>m'. Update env0 (pingResultsMsg example_batch) example_model = Inr (m', tickCmd example_model) \<and>
      status (results m' ! 1) \<and> reply (results m' ! 1) = 3.5 \<and>
      lastChange (results m' ! 1) = 1000 * Second) \<and>
   (\<exists>m'. run (deliveries [(env0, example_batch), (env1, example_batch), (env3, example_batch)])
            example_model = Inr m' \<and>
      status (results m' ! 1) \<and> lastChange (results m' ! 1) = 1000 * Second) \<and>
   (\<exists>m'. run (deliveries [(env0, example_batch), (env1, example_batch), (env3, example_batch)])
            example_model = Inr m' \<and>
      status (results m' ! 0) \<and> lastChange (results m' ! 0) = 100 * Second)"
  using lastChange_on_batch[of example_batch example_model 1 env0
      "[(env1, example_batch), (env3, example_batch)]"]
    lastChange_on_batch[of example_batch example_model 0 env0
      "[(env1, example_batch), (env3, example_batch)]"]
  by (simp add: example_batch_def example_model_def env0_def IsZero_def Second_def)

text \<open>
  Claim C7, as the code has it. When a batch of the length of the status sequence is
  delivered, the record of every host \<open>i\<close> takes the reachability of outcome \<open>i\<close>, and
  gets as \<open>flashUntil\<close> the batch time plus two seconds exactly when that reachability
  differs from the recorded one; the record of a host never observed, or reset by an add,
  an edit or a reload, holds \<open>unreachable\<close>, so the first observation of such a host as
  reachable sets \<open>flashUntil\<close> as well. When the reachability does not differ, the
  previous \<open>flashUntil\<close> is kept if it is after the batch time and is reset to the zero
  time otherwise. Across the run of batches that follow and repeat that reachability,
  \<open>flashUntil\<close> stays what the first batch made it while every batch time is before it,
  and is the zero time afterwards: the highlight does not reappear.
\<close>

theorem flashUntil_on_batch:
  "(length batch = length (results m) \<and> i < length batch \<longrightarrow>
      (\<exists>m'. Update e (pingResultsMsg batch) m = Inr (m', tickCmd m) \<and>
         status (results m' ! i) = status (batch ! i) \<and>
         flashUntil (results m' ! i) =
           (if status (batch ! i) \<noteq> status (results m ! i) then now e + 2 * Second
            else if After (flashUntil (results m ! i)) (now e) then flashUntil (results m ! i)
            else 0))) \<and>
   (length batch = length (results m) \<and> i < length batch \<and>
    results m ! i = zeroResult \<and> status (batch ! i) \<longrightarrow>
      (\<exists>m'. Update e (pingResultsMsg batch) m = Inr (m', tickCmd m) \<and>
         flashUntil (results m' ! i) = now e + 2 * Second)) \<and>
   (length batch = length (results m) \<and> i < length batch \<and>
    (\<forall>(e', batch') \<in> set ds.
        length batch' = length (results m) \<and> status (batch' ! i) = status (batch ! i)) \<longrightarrow>
      (\<exists>m1 m'. Update e (pingResultsMsg batch) m = Inr (m1, tickCmd m) \<and>
         run (deliveries ((e, batch) # ds)) m = Inr m' \<and>
         status (results m' ! i) = status (batch ! i) \<and>
         flashUntil (results m' ! i) =
           (if \<forall>(e', batch') \<in> set ds. After (flashUntil (results m1 ! i)) (now e')
            then flashUntil (results m1 ! i) else 0)))"
proof (intro conjI impI)
  assume a: "length batch = length (results m) \<and> i < length batch"
  then have len: "length batch = length (results m)" by simp
  from Update_pingResults_matching[OF len, of e] a
  show "\<exists>m'. Update e (pingResultsMsg batch) m = Inr (m', tickCmd m) \<and>
         status (results m' ! i) = status (batch ! i) \<and>
         flashUntil (results m' ! i) =
           (if status (batch ! i) \<noteq> status (results m ! i) then now e + 2 * Second
            else if After (flashUntil (results m ! i)) (now e) then flashUntil (results m ! i)
            else 0)"
    by (auto simp: reconcile_flashUntil reconcile_status)
next
  assume a: "length batch = length (results m) \<and> i < length batch \<and>
    results m ! i = zeroResult \<and> status (batch ! i)"
  then have len: "length batch = length (results m)" by simp
  from Update_pingResults_matching[OF len, of e] a
  show "\<exists>m'. Update e (pingResultsMsg batch) m = Inr (m', tickCmd m) \<and>
         flashUntil (results m' ! i) = now e + 2 * Second"
    by (auto simp: reconcile_flashUntil zeroResult_def)
next
  assume a: "length batch = length (results m) \<and> i < length batch \<and>
    (\<forall>(e', batch') \<in> set ds.
        length batch' = length (results m) \<and> status (batch' ! i) = status (batch ! i))"
  then have len: "length batch = length (results m)" and i: "i < length batch" by simp_all
  from Update_pingResults_matching[OF len, of e] obtain m1 where
    u: "Update e (pingResultsMsg batch) m = Inr (m1, tickCmd m)"
    and l1: "length (results m1) = length batch"
    and r1: "results m1 ! i = reconcile (now e) (results m ! i) (batch ! i)"
    using i by blast
  have s1: "status (results m1 ! i) = status (batch ! i)" using r1 by (simp add: reconcile_status)
  have i1: "i < length (results m1)" using i l1 by simp
  have "\<forall>(e', batch') \<in> set ds.
      length batch' = length (results m1) \<and> status (batch' ! i) = status (results m1 ! i)"
    using a l1 len s1 by auto
  from run_deliveries_same[OF i1 this] obtain m' where
    r: "run (deliveries ds) m1 = Inr m'"
    and s: "status (results m' ! i) = status (results m1 ! i)"
    and f: "flashUntil (results m' ! i) =
        (if \<forall>(e', batch') \<in> set ds. After (flashUntil (results m1 ! i)) (now e')
         then flashUntil (results m1 ! i) else 0)"
    by blast
  have "run (deliveries ((e, batch) # ds)) m = Inr m'" using u r by (simp add: deliveries_def)
  then show "\<exists>m1 m'. Update e (pingResultsMsg batch) m = Inr (m1, tickCmd m) \<and>
         run (deliveries ((e, batch) # ds)) m = Inr m' \<and>
         status (results m' ! i) = status (batch ! i) \<and>
         flashUntil (results m' ! i) =
           (if \<forall>(e', batch') \<in> set ds. After (flashUntil (results m1 ! i)) (now e')
            then flashUntil (results m1 ! i) else 0)"
    using u s s1 f by auto
qed

text \<open>
  Instances: host 1 goes from down to up at 1000 s and is highlighted until 1002 s; a
  host never observed is first observed up and is highlighted; the highlight of host 1
  is kept by a batch at 1001 s that finds it up and is gone after a batch at 1003 s.
\<close>

theorem flashUntil_on_batch_witness:
  "length example_batch = length (results example_model) \<and> (1::nat) < length example_batch \<and>
   (\<exists>m'. Update env0 (pingResultsMsg example_batch) example_model = Inr (m', tickCmd example_model) \<and>
      status (results m' ! 1) \<and> flashUntil (results m' ! 1) = 1002 * Second) \<and>
   length first_batch = length (results initial_example) \<and> (0::nat) < length first_batch \<and>
   results initial_example ! 0 = zeroResult \<and> status (first_batch ! 0) \<and>
   (\<exists>m'. Update env0 (pingResultsMsg first_batch) initial_example = Inr (m', tickCmd initial_example) \<and>
      flashUntil (results m' ! 0) = 1002 * Second) \<and>
   (\<exists>m'. run (deliveries [(env0, example_batch), (env1, example_batch)]) example_model = Inr m' \<and>
      status (results m' ! 1) \<and> flashUntil (results m' ! 1) = 1002 * Second) \<and>
   (\<exists>m'. run (deliveries [(env0, example_batch), (env1, example_batch), (env3, example_batch)])
            example_model = Inr m' \<and>
      status (results m' ! 1) \<and> flashUntil (results m' ! 1) = 0)"
proof -
  have h: "length example_batch = length (results example_model) \<and> (1::nat) < length example_batch"
    by (simp add: example_batch_def example_model_def)
  have u: "Update env0 (pingResultsMsg example_batch) example_model =
     Inr (example_model\<lparr>results :=
            [\<lparr>status = True, reply = 11.9, lastChange = 100 * Second, flashUntil = 0\<rparr>,
             \<lparr>status = True, reply = 3.5, lastChange = 1000 * Second, flashUntil = 1002 * Second\<rparr>]\<rparr>,
          tickCmd example_model)"
    by (simp add: Update_def Update_pingResults_def example_batch_def example_model_def env0_def
        index_def store_def reconcile_def Let_def IsZero_def After_def Second_def)
  show ?thesis
    using flashUntil_on_batch[of example_batch example_model 1 env0 "[]"]
      flashUntil_on_batch[of first_batch initial_example 0 env0 "[]"]
      flashUntil_on_batch[of example_batch example_model 1 env0 "[(env1, example_batch)]"]
      flashUntil_on_batch[of example_batch example_model 1 env0
        "[(env1, example_batch), (env3, example_batch)]"]
      h u
    by (simp add: example_batch_def first_batch_def example_model_def
        initial_example_def env0_def env1_def env3_def After_def Second_def zeroResult_def)
qed

text \<open>
  Claim C7 as stated fails: no reachability transition occurs at a first observation,
  and yet the first batch delivered after the start, which finds the never-observed host
  \<open>a.example\<close> reachable, sets its \<open>flashUntil\<close> to the batch time plus two seconds.
\<close>

theorem first_observation_flashes:
  "lastChange (results initial_example ! 0) = 0 \<and>
   length first_batch = length (results initial_example) \<and>
   map_sum id (map flashUntil \<circ> results \<circ> fst)
     (Update env0 (pingResultsMsg first_batch) initial_example) = Inr [1002 * Second, 0]"
  by (simp add: Update_def Update_pingResults_def first_batch_def initial_example_def env0_def
      index_def store_def zeroResult_def reconcile_def Let_def IsZero_def After_def Second_def)

lemma applyBatch_fresh:
  "applyBatch t 0 batch (replicate (length batch) zeroResult) = Inr (map (reconcile t zeroResult) batch)"
proof -
  have "0 + length batch \<le> length (replicate (length batch) zeroResult)" by simp
  from applyBatch_spec[OF this, of t] obtain rs' where
    a: "applyBatch t 0 batch (replicate (length batch) zeroResult) = Inr rs'"
    and l: "length rs' = length batch"
    and n: "\<forall>k < length batch. rs' ! k = reconcile t zeroResult (batch ! k)"
    by auto
  have "rs' = map (reconcile t zeroResult) batch"
    using l n by (intro nth_equalityI) auto
  then show ?thesis using a by simp
qed

text \<open>
  Claim C1, as the code has it. A batch whose length differs from the length of the status
  sequence is not discarded: the status sequence is replaced by one of the length of the
  batch, every record of which is built from the batch as for a host never observed.
  The hosts, the cursor and every other field of the model are unchanged, and the next
  tick is armed.
\<close>

theorem stale_batch_replaces_results:
  assumes "length batch \<noteq> length (results m)"
  shows "Update e (pingResultsMsg batch) m =
     Inr (m\<lparr>results :=
             map (\<lambda>res. \<lparr>status = status res, reply = reply res, lastChange = now e,
                          flashUntil = (if status res then now e + 2 * Second else 0)\<rparr>) batch\<rparr>,
          tickCmd m)"
  using assms by (simp add: Update_def Update_pingResults_def applyBatch_fresh reconcile_zero)

text \<open>
  An instance: a batch of three outcomes delivered to a model of two hosts.
\<close>

theorem stale_batch_replaces_results_witness:
  "length stale_batch \<noteq> length (results example_model) \<and>
   Update env0 (pingResultsMsg stale_batch) example_model =
     Inr (example_model\<lparr>results :=
            [\<lparr>status = True, reply = 11.9, lastChange = 1000 * Second, flashUntil = 1002 * Second\<rparr>,
             \<lparr>status = False, reply = -1, lastChange = 1000 * Second, flashUntil = 0\<rparr>,
             \<lparr>status = True, reply = 3.5, lastChange = 1000 * Second, flashUntil = 1002 * Second\<rparr>]\<rparr>,
          CmdTick (5 * Second))"
proof -
  have h: "length stale_batch \<noteq> length (results example_model)"
    by (simp add: stale_batch_def example_model_def)
  show ?thesis
    using h stale_batch_replaces_results[OF h, of env0]
    by (simp add: stale_batch_def example_model_def env0_def Second_def tickCmd_def)
qed

text \<open>
  Claim C1 as stated fails: the batch of three outcomes delivered to the model of two
  hosts changes the model.
\<close>

theorem stale_batch_not_discarded:
  "length stale_batch \<noteq> length (results example_model) \<and>
   length (results example_model) = 2 \<and>
   map_sum id (length \<circ> results \<circ> fst)
     (Update env0 (pingResultsMsg stale_batch) example_model) = Inr 3 \<and>
   Update env0 (pingResultsMsg stale_batch) example_model \<noteq>
     Inr (example_model, tickCmd example_model)"
  by (simp add: Update_def Update_pingResults_def stale_batch_def example_model_def
      index_def store_def zeroResult_def reconcile_def Let_def IsZero_def After_def)

section \<open>Sorting\<close>

lemma less_idx_returns:
  "i < length (hosts m) \<Longrightarrow> j < length (hosts m) \<Longrightarrow> \<exists>b n'. less_idx e m i j n = (Inr b, n')"
  by (auto simp: less_idx_def lessName_def index_def split: prod.splits)

lemma insertLeft_permutes:
  "\<forall>y \<in> set left. \<forall>n. \<exists>b n'. lt x y n = (Inr b, n') \<Longrightarrow>
   \<exists>zs n'. insertLeft lt x left n = (Inr zs, n') \<and> mset zs = add_mset x (mset left)"
proof (induction left arbitrary: n)
  case Nil
  then show ?case by simp
next
  case (Cons y left)
  from Cons.prems obtain b n1 where c: "lt x y n = (Inr b, n1)" by fastforce
  show ?case
  proof (cases b)
    case True
    from Cons.prems have "\<forall>y \<in> set left. \<forall>n. \<exists>b n'. lt x y n = (Inr b, n')" by simp
    from Cons.IH[of n1, OF this] obtain zs n2 where
      "insertLeft lt x left n1 = (Inr zs, n2)" "mset zs = add_mset x (mset left)" by blast
    then show ?thesis using c True by simp
  next
    case False
    then show ?thesis using c by simp
  qed
qed

lemma insertionSort_permutes:
  "\<forall>x \<in> set xs \<union> set placed. \<forall>y \<in> set xs \<union> set placed. \<forall>n. \<exists>b n'. lt x y n = (Inr b, n') \<Longrightarrow>
   \<exists>ys n'. insertionSort lt xs placed n = (Inr ys, n') \<and> mset ys = mset xs + mset placed"
proof (induction xs arbitrary: placed n)
  case Nil
  then show ?case by simp
next
  case (Cons x rest)
  have "\<forall>y \<in> set placed. \<forall>n. \<exists>b n'. lt x y n = (Inr b, n')" using Cons.prems by simp
  from insertLeft_permutes[of placed lt x n, OF this] obtain zs n1 where
    i: "insertLeft lt x placed n = (Inr zs, n1)" and z: "mset zs = add_mset x (mset placed)" by blast
  have "set zs = insert x (set placed)" using z by (metis set_mset_add_mset_insert set_mset_mset)
  then have "\<forall>x \<in> set rest \<union> set zs. \<forall>y \<in> set rest \<union> set zs. \<forall>n. \<exists>b n'. lt x y n = (Inr b, n')"
    using Cons.prems by auto
  from Cons.IH[of zs n1, OF this] obtain ys n2 where
    "insertionSort lt rest zs n1 = (Inr ys, n2)" "mset ys = mset rest + mset zs" by blast
  then show ?case using i z by simp
qed

lemma sortedIdx_permutes:
  "\<exists>idx. sortedIdx e m = Inr idx \<and> mset idx = mset [0 ..< length (hosts m)]"
proof -
  have "\<forall>x \<in> set [0 ..< length (hosts m)] \<union> set []. \<forall>y \<in> set [0 ..< length (hosts m)] \<union> set [].
      \<forall>n. \<exists>b n'. less_idx e m x y n = (Inr b, n')"
    using less_idx_returns by simp
  from insertionSort_permutes[of "[0 ..< length (hosts m)]" "[]" "less_idx e m" 0, OF this] show ?thesis
    by (auto simp: sortedIdx_def SliceStable_def)
qed

lemma applyOrder_spec:
  "\<forall>original \<in> set idx. original < length (hosts m) \<and> original < length (results m) \<Longrightarrow>
   k + length idx \<le> length nh \<Longrightarrow> k + length idx \<le> length nr \<Longrightarrow>
   applyOrder m k idx (nh, nr) =
     Inr (take k nh @ map ((!) (hosts m)) idx @ drop (k + length idx) nh,
          take k nr @ map ((!) (results m)) idx @ drop (k + length idx) nr)"
proof (induction idx arbitrary: k nh nr)
  case Nil
  then show ?case by simp
next
  case (Cons original rest)
  let ?nh = "nh[k := hosts m ! original]" and ?nr = "nr[k := results m ! original]"
  have k: "k < length nh" "k < length nr" using Cons.prems by auto
  have "applyOrder m (Suc k) rest (?nh, ?nr) =
     Inr (take (Suc k) ?nh @ map ((!) (hosts m)) rest @ drop (Suc k + length rest) ?nh,
          take (Suc k) ?nr @ map ((!) (results m)) rest @ drop (Suc k + length rest) ?nr)"
    using Cons.prems by (intro Cons.IH) auto
  moreover have "take (Suc k) ?nh = take k nh @ [hosts m ! original]"
    using k by (simp add: take_Suc_conv_app_nth)
  moreover have "take (Suc k) ?nr = take k nr @ [results m ! original]"
    using k by (simp add: take_Suc_conv_app_nth)
  ultimately show ?case using Cons.prems k by (simp add: index_def store_def)
qed

lemma sortHosts_permutes:
  assumes "length (results m) = length (hosts m)"
  shows "\<exists>idx. sortedIdx e m = Inr idx \<and> mset idx = mset [0 ..< length (hosts m)] \<and>
     sortHosts e m =
       Inr (m\<lparr>hosts := map ((!) (hosts m)) idx, results := map ((!) (results m)) idx\<rparr>)"
proof -
  from sortedIdx_permutes[of e m] obtain idx where
    s: "sortedIdx e m = Inr idx" and p: "mset idx = mset [0 ..< length (hosts m)]" by blast
  have st: "set idx = {0 ..< length (hosts m)}" using p by (metis set_mset_mset set_upt)
  have l: "length idx = length (hosts m)" using p by (metis size_mset length_upt diff_zero)
  have "applyOrder m 0 idx (replicate (length (hosts m)) zeroHost, replicate (length (results m)) zeroResult)
      = Inr (take 0 (replicate (length (hosts m)) zeroHost) @ map ((!) (hosts m)) idx @ drop (0 + length idx) (replicate (length (hosts m)) zeroHost),
          take 0 (replicate (length (results m)) zeroResult) @ map ((!) (results m)) idx @ drop (0 + length idx) (replicate (length (results m)) zeroResult))"
    using assms st l by (intro applyOrder_spec) simp_all
  then have "sortHosts e m =
       Inr (m\<lparr>hosts := map ((!) (hosts m)) idx, results := map ((!) (results m)) idx\<rparr>)"
    using assms s l by (simp add: sortHosts_def)
  then show ?thesis using s p by blast
qed


section \<open>Claims on sortHosts\<close>

lemma sortHosts_unparsed: "sortHosts env0 unparsed_model =
     Inr (unparsed_model\<lparr>hosts := [\<lparr>Host = ''b.example'', Desc = ''B''\<rparr>, \<lparr>Host = ''a.example'', Desc = ''A''\<rparr>],
             results := [\<lparr>status = True, reply = -1, lastChange = 100 * Second, flashUntil = 0\<rparr>,
                         \<lparr>status = True, reply = 12.3, lastChange = 100 * Second, flashUntil = 0\<rparr>]\<rparr>)"
  by (simp add: sortHosts_def sortedIdx_def SliceStable_def unparsed_model_def example_model_def
      less_idx_def replyAt_def index_def store_def upt_rec zeroHost_def zeroResult_def)

lemma sortHosts_short: "sortHosts e short_model = Inl IndexOutOfRange"
  by (simp add: sortHosts_def sortedIdx_def SliceStable_def short_model_def example_model_def
      less_idx_def lessName_def index_def store_def upt_rec ToLower_def lowerChar_def)

text \<open>
  Claim C10. When the status sequence is as long as the host sequence, \<open>sortHosts\<close>
  returns without a panic: every checked read and write of the model succeeds, and every
  entry \<open>original\<close> of the sorted index slice is below \<open>len(m.results)\<close>, so the guard
  that skips the copy of a status record is never taken. Without that precondition the
  write \<open>newResults[k]\<close> can be out of range: it is for two hosts in reverse name order
  and one status record.
\<close>

theorem sortHosts_in_bounds:
  "(length (results m) = length (hosts m) \<longrightarrow>
      (\<exists>idx m'. sortedIdx e m = Inr idx \<and>
         (\<forall>original \<in> set idx. original < length (hosts m) \<and> original < length (results m)) \<and>
         sortHosts e m = Inr m')) \<and>
   length (results short_model) \<noteq> length (hosts short_model) \<and>
   sortHosts e short_model = Inl IndexOutOfRange"
proof (intro conjI impI)
  assume len: "length (results m) = length (hosts m)"
  from sortHosts_permutes[OF len, of e] obtain idx where
    s: "sortedIdx e m = Inr idx" and p: "mset idx = mset [0 ..< length (hosts m)]"
    and h: "sortHosts e m =
       Inr (m\<lparr>hosts := map ((!) (hosts m)) idx, results := map ((!) (results m)) idx\<rparr>)"
    by blast
  have "set idx = {0 ..< length (hosts m)}" using p by (metis set_mset_mset set_upt)
  then have "\<forall>original \<in> set idx. original < length (hosts m) \<and> original < length (results m)"
    using len by simp
  then show "\<exists>idx m'. sortedIdx e m = Inr idx \<and>
         (\<forall>original \<in> set idx. original < length (hosts m) \<and> original < length (results m)) \<and>
         sortHosts e m = Inr m'"
    using s h by blast
next
  show "length (results short_model) \<noteq> length (hosts short_model)"
    by (simp add: short_model_def)
next
  show "sortHosts e short_model = Inl IndexOutOfRange" by (rule sortHosts_short)
qed

text \<open>An instance: two hosts with two status records.\<close>

theorem sortHosts_in_bounds_witness:
  "length (results unparsed_model) = length (hosts unparsed_model) \<and>
   sortedIdx env0 unparsed_model = Inr [1, 0] \<and>
   (\<exists>m'. sortHosts env0 unparsed_model = Inr m')"
proof -
  have h: "length (results unparsed_model) = length (hosts unparsed_model)"
    by (simp add: unparsed_model_def example_model_def)
  have "sortedIdx env0 unparsed_model = Inr [1, 0]"
    by (simp add: sortedIdx_def SliceStable_def unparsed_model_def example_model_def less_idx_def
      replyAt_def index_def upt_rec)
  then show ?thesis using h sortHosts_in_bounds[of unparsed_model env0] by auto
qed

text \<open>
  Claim C4 fails on the code. Two hosts are reachable, \<open>a.example\<close> with a latency of
  12.3 ms and \<open>b.example\<close> with a latency that was not parsed (\<open>pingHost\<close> then returns
  \<open>true, -1\<close>). Under the key \<open>reply\<close> the host without a parsed latency is ordered
  first, before the host that carries one.
\<close>

theorem unparsed_latency_sorts_first:
  "map_sum id (map Host \<circ> hosts) (sortHosts env0 unparsed_model) = Inr [''b.example'', ''a.example''] \<and>
   map_sum id (map reply \<circ> results) (sortHosts env0 unparsed_model) = Inr [-1, 12.3]"
  by (simp add: sortHosts_unparsed)

lemma sortHosts_age_advancing: "sortHosts env0 age_model = Inr age_model"
  by (simp add: sortHosts_def sortedIdx_def SliceStable_def age_model_def example_model_def
      less_idx_def ageAt_def IsZero_def Seconds_def Second_def env0_def
      index_def store_def upt_rec zeroHost_def zeroResult_def)

lemma sortHosts_age_coarse:
  "sortHosts coarse_env age_model =
     Inr (age_model\<lparr>hosts := [\<lparr>Host = ''a.example'', Desc = ''A''\<rparr>, \<lparr>Host = ''b.example'', Desc = ''B''\<rparr>],
            results := [\<lparr>status = True, reply = 12.3, lastChange = 100 * Second, flashUntil = 0\<rparr>,
                        \<lparr>status = True, reply = 3.5, lastChange = 100 * Second, flashUntil = 0\<rparr>]\<rparr>)"
  by (simp add: sortHosts_def sortedIdx_def SliceStable_def age_model_def example_model_def
      less_idx_def ageAt_def IsZero_def Seconds_def Second_def coarse_env_def env0_def
      lessName_def ToLower_def lowerChar_def
      index_def store_def upt_rec zeroHost_def zeroResult_def)

lemma sortHosts_aged_delayed: "sortHosts delayed_env aged_model = Inr aged_model"
  by (simp add: sortHosts_def sortedIdx_def SliceStable_def aged_model_def example_model_def
      less_idx_def ageAt_def IsZero_def Seconds_def Second_def delayed_env_def env0_def
      index_def store_def upt_rec zeroHost_def zeroResult_def)

lemma sortHosts_aged_prompt:
  "sortHosts env0 aged_model =
     Inr (aged_model\<lparr>hosts := [\<lparr>Host = ''b.example'', Desc = ''B''\<rparr>, \<lparr>Host = ''a.example'', Desc = ''A''\<rparr>],
            results := [\<lparr>status = True, reply = 3.5, lastChange = 100 * Second, flashUntil = 0\<rparr>,
                        \<lparr>status = True, reply = 12.3, lastChange = 100 * Second + 1000000, flashUntil = 0\<rparr>]\<rparr>)"
  by (simp add: sortHosts_def sortedIdx_def SliceStable_def aged_model_def example_model_def
      less_idx_def ageAt_def IsZero_def Seconds_def Second_def env0_def
      index_def store_def upt_rec zeroHost_def zeroResult_def)

text \<open>
  Claim C5 fails on the code under the key \<open>age\<close>: the comparison reads the clock anew
  for each of the two ages, so the order depends on the readings and a second sort of
  unchanged data can undo the first. Two hosts first observed in the same batch stand in
  the order \<open>b.example\<close>, \<open>a.example\<close>: a sort whose readings advance leaves them so,
  and a sort whose two readings are equal then breaks the tie by name and puts
  \<open>a.example\<close> first. Two hosts whose last changes are 1 ms apart stand with the newer
  first: a sort in which 2 ms pass between the two readings leaves them so, and a sort in
  which 100 ns pass then puts the older first.
\<close>

theorem age_resort_not_idempotent:
  "sortHosts env0 age_model = Inr age_model \<and>
   map Host (hosts age_model) = [''b.example'', ''a.example''] \<and>
   map_sum id (map Host \<circ> hosts) (sortHosts coarse_env age_model) =
     Inr [''a.example'', ''b.example''] \<and>
   sortHosts delayed_env aged_model = Inr aged_model \<and>
   map Host (hosts aged_model) = [''a.example'', ''b.example''] \<and>
   map_sum id (map Host \<circ> hosts) (sortHosts env0 aged_model) =
     Inr [''b.example'', ''a.example'']"
  by (simp add: sortHosts_age_advancing sortHosts_age_coarse sortHosts_aged_delayed
      sortHosts_aged_prompt) (simp add: age_model_def aged_model_def)

section \<open>Claims on the state machine\<close>

lemma store_length: "store xs k v = Inr ys \<Longrightarrow> length ys = length xs"
  by (auto simp: store_def split: if_splits)

lemma applyOrder_length:
  "applyOrder m k idx (nh, nr) = Inr (nh', nr') \<Longrightarrow> length nh' = length nh \<and> length nr' = length nr"
proof (induction idx arbitrary: k nh nr)
  case Nil
  then show ?case by simp
next
  case (Cons original rest)
  then show ?case
    by (fastforce split: sum.splits if_splits dest: store_length)
qed

lemma sortHosts_frame:
  assumes "sortHosts e m = Inr m'"
  shows "length (hosts m') = length (hosts m) \<and> length (results m') = length (results m) \<and>
         cursor m' = cursor m \<and> m' = m\<lparr>hosts := hosts m', results := results m'\<rparr>"
proof -
  from assms obtain idx nh nr where
    a: "applyOrder m 0 idx (replicate (length (hosts m)) zeroHost, replicate (length (results m)) zeroResult) = Inr (nh, nr)"
    and m': "m' = m\<lparr>hosts := nh, results := nr\<rparr>"
    by (auto simp: sortHosts_def split: sum.splits)
  from applyOrder_length[OF a] show ?thesis using m' by simp
qed

lemma applyBatch_length: "applyBatch t i batch rs = Inr rs' \<Longrightarrow> length rs' = length rs"
proof (induction batch arbitrary: i rs)
  case Nil
  then show ?case by simp
next
  case (Cons res rest)
  then show ?case by (fastforce split: sum.splits dest: store_length)
qed

lemma Update_pingResults_frame:
  assumes "Update_pingResults e batch m = Inr (m', c)"
  shows "m' = m\<lparr>results := results m'\<rparr> \<and> length (results m') = length batch"
proof -
  let ?rs = "if length (results m) \<noteq> length batch then replicate (length batch) zeroResult else results m"
  from assms obtain rs' where a: "applyBatch (now e) 0 batch ?rs = Inr rs'" and m': "m' = m\<lparr>results := rs'\<rparr>"
    by (auto simp: Update_pingResults_def Let_def split: sum.splits)
  have "length rs' = length ?rs" using a by (rule applyBatch_length)
  then show ?thesis using m' by (auto split: if_splits)
qed

lemma firstIndex_bound: "firstIndex P i xs = Some j \<Longrightarrow> i \<le> j \<and> j < i + length xs"
  by (induction xs arbitrary: i) (fastforce split: if_splits)+

lemma Update_modeList_cursor:
  assumes "cursor_ok m" and "Update_modeList e k m = Inr (m', c)"
  shows "cursor_ok m'"
proof -
  consider (reload) h where "oneOf k [''r'', ''R'']" "loadHostsFromFile e = Some h"
      "\<not> oneOf k [''ctrl+c'', ''q'', ''Q'']" "\<not> oneOf k [''up'', ''k'', ''K'']" "\<not> oneOf k [''down'', ''j'', ''J'']"
      "\<not> oneOf k [''a'', ''A'']" "\<not> oneOf k [''e'', ''E'']" "\<not> oneOf k [''d'', ''D'']" "\<not> oneOf k [''s'', ''S'']"
    | (other) "hosts m' = hosts m" "cursor m' = cursor m \<or> (cursor m > 0 \<and> cursor m' = cursor m - 1)
        \<or> (cursor m < int (length (hosts m)) - 1 \<and> cursor m' = cursor m + 1)"
    using assms(2) unfolding Update_modeList_def
    by (auto simp: setMessage_def split: if_splits sum.splits option.splits)
  then show ?thesis
  proof cases
    case reload
    let ?m1 = "setMessage ''Hosts reloaded'' (m\<lparr>hosts := h, results := replicate (length h) zeroResult, cursor := 0\<rparr>)"
    from reload assms(2) have "sortHosts e ?m1 = Inr m'"
      unfolding Update_modeList_def by (auto split: sum.splits)
    from sortHosts_frame[OF this] have "length (hosts m') = length h" "cursor m' = 0"
      by (simp_all add: setMessage_def)
    then show ?thesis by (auto simp: cursor_ok_def)
  next
    case other
    then show ?thesis using assms(1) by (auto simp: cursor_ok_def)
  qed
qed

lemma confirmAddEdit_cursor:
  assumes "confirmAddEdit m = Inr (m', c)" and "cursor_ok m"
  shows "cursor_ok m'"
proof (cases "TrimSpace (Value (inputHost m)) = []")
  case True
  then have "m' = setMessage ''Host cannot be empty'' m"
    using assms(1) by (simp add: confirmAddEdit_def Let_def)
  then show ?thesis using assms(2) by (simp add: cursor_ok_def setMessage_def)
next
  case False
  then obtain hs' where h: "hosts m' = hs'"
    and c: "cursor m' = (case firstIndex (\<lambda>h. Host h = TrimSpace (Value (inputHost m))) 0 hs' of
                       Some i \<Rightarrow> int i | None \<Rightarrow> 0)"
    using assms(1) by (auto simp: confirmAddEdit_def Let_def)
  show ?thesis
  proof (cases "firstIndex (\<lambda>h. Host h = TrimSpace (Value (inputHost m))) 0 hs'")
    case None
    then show ?thesis using h c by (auto simp: cursor_ok_def)
  next
    case (Some i)
    then have "i < length hs'" using firstIndex_bound[OF Some] by simp
    then show ?thesis using h c Some by (auto simp: cursor_ok_def)
  qed
qed

lemma confirmAddEdit_length:
  assumes "confirmAddEdit m = Inr (m', c)" and "length (hosts m) = length (results m)"
  shows "length (hosts m') = length (results m')"
  using assms by (auto simp: confirmAddEdit_def Let_def setMessage_def split: if_splits)

lemma Update_modeAddEdit_cursor:
  assumes "Update_modeAddEdit e k m = Inr (m', c)" and "cursor_ok m"
  shows "cursor_ok m'"
proof (cases "\<not> Focused (inputHost m) \<and> k = ''enter''")
  case True
  then have "confirmAddEdit m = Inr (m', c)" using assms(1) by (simp add: Update_modeAddEdit_def)
  then show ?thesis using assms(2) by (rule confirmAddEdit_cursor)
next
  case False
  then have "hosts m' = hosts m \<and> cursor m' = cursor m"
    using assms(1) by (auto simp: Update_modeAddEdit_def split: if_splits)
  then show ?thesis using assms(2) by (simp add: cursor_ok_def)
qed

lemma Update_modeAddEdit_length:
  assumes "Update_modeAddEdit e k m = Inr (m', c)" and "length (hosts m) = length (results m)"
  shows "length (hosts m') = length (results m')"
proof (cases "\<not> Focused (inputHost m) \<and> k = ''enter''")
  case True
  then have "confirmAddEdit m = Inr (m', c)" using assms(1) by (simp add: Update_modeAddEdit_def)
  then show ?thesis using assms(2) by (rule confirmAddEdit_length)
next
  case False
  then have "hosts m' = hosts m \<and> results m' = results m"
    using assms(1) by (auto simp: Update_modeAddEdit_def split: if_splits)
  then show ?thesis using assms(2) by simp
qed

lemma Update_modeConfirmDelete_cursor:
  assumes "Update_modeConfirmDelete k m = Inr (m', c)" and "cursor_ok m"
  shows "cursor_ok m'"
proof (cases "oneOf k [''y'', ''Y''] \<and> 0 \<le> confirmIndex m \<and> confirmIndex m < int (length (hosts m))")
  case True
  let ?ci = "nat (confirmIndex m)"
  let ?hs = "take ?ci (hosts m) @ drop (?ci + 1) (hosts m)"
  have h: "hosts m' = ?hs"
    and cu: "cursor m' = (if cursor m \<ge> int (length ?hs) \<and> cursor m > 0 then cursor m - 1 else cursor m)"
    using True assms(1) by (auto simp: Update_modeConfirmDelete_def Let_def setMessage_def)
  have l: "int (length ?hs) = int (length (hosts m)) - 1" using True by auto
  have ne: "hosts m \<noteq> []" using True by auto
  have len: "length ?hs = length (hosts m) - 1" using True by auto
  have "(length ?hs = 0) = (length (hosts m) = 1)"
    unfolding len using ne by (cases "hosts m") auto
  then have e: "(?hs = []) = (length (hosts m) = 1)" by (simp only: length_0_conv)
  from ne obtain n where n: "length (hosts m) = Suc n" by (cases "hosts m") auto
  have "0 \<le> cursor m" "cursor m < int (length (hosts m))"
    using assms(2) ne by (simp_all add: cursor_ok_def)
  then show ?thesis
    unfolding cursor_ok_def h cu e l n by (auto split: if_splits)
next
  case False
  then have "hosts m' = hosts m \<and> cursor m' = cursor m"
    using assms(1) by (auto simp: Update_modeConfirmDelete_def split: if_splits)
  then show ?thesis using assms(2) by (simp add: cursor_ok_def)
qed

lemma Update_modeConfirmDelete_length:
  assumes "Update_modeConfirmDelete k m = Inr (m', c)" and "length (hosts m) = length (results m)"
  shows "length (hosts m') = length (results m')"
  using assms by (auto simp: Update_modeConfirmDelete_def Let_def setMessage_def split: if_splits)

lemma confirmOptions_frame:
  assumes "confirmOptions e m = Inr (m', c)"
  shows "(hosts m' = hosts m \<and> results m' = results m \<and> cursor m' = cursor m) \<or>
         (length (hosts m') = length (hosts m) \<and> length (results m') = length (hosts m') \<and> cursor m' = 0)"
proof -
  let ?p = "ParseDuration e (ReplaceComma (TrimSpace (Value (optInterval m))) @ ''s'')"
  show ?thesis
  proof (cases "?p")
    case None
    then show ?thesis using assms by (simp add: confirmOptions_def Let_def setMessage_def) auto
  next
    case (Some dur)
    show ?thesis
    proof (cases "Seconds dur < 0.5 \<or> Seconds dur > 5")
      case True
      then show ?thesis using assms Some by (simp add: confirmOptions_def Let_def setMessage_def) auto
    next
      case False
      then obtain sortStr m2 where s: "sortHosts e (m\<lparr>interval := dur, sortBy := sortStr\<rparr>) = Inr m2"
        and m': "m' = m2\<lparr>results := map (remap (hosts m) (results m)) (hosts m2), cursor := 0, mode := modeList\<rparr>"
        using assms Some by (auto simp: confirmOptions_def Let_def split: sum.splits)
      from sortHosts_frame[OF s] show ?thesis using m' by simp
    qed
  qed
qed

lemma Update_modeOptions_frame:
  assumes "Update_modeOptions e k m = Inr (m', c)"
  shows "(hosts m' = hosts m \<and> results m' = results m \<and> cursor m' = cursor m) \<or>
         (length (hosts m') = length (hosts m) \<and> length (results m') = length (hosts m') \<and> cursor m' = 0)"
proof (cases "optFocus m \<noteq> 0 \<and> k = ''enter''")
  case True
  then have "confirmOptions e m = Inr (m', c)" using assms by (auto simp: Update_modeOptions_def)
  then show ?thesis by (rule confirmOptions_frame)
next
  case False
  then have "hosts m' = hosts m \<and> results m' = results m \<and> cursor m' = cursor m"
    using assms by (auto simp: Update_modeOptions_def split: if_splits)
  then show ?thesis by simp
qed

lemma Update_modeList_length:
  assumes "Update_modeList e k m = Inr (m', c)" and "length (hosts m) = length (results m)"
  shows "length (hosts m') = length (results m')"
proof (cases "oneOf k [''r'', ''R''] \<and> \<not> oneOf k [''ctrl+c'', ''q'', ''Q''] \<and> \<not> oneOf k [''up'', ''k'', ''K''] \<and> \<not> oneOf k [''down'', ''j'', ''J'']
      \<and> \<not> oneOf k [''a'', ''A''] \<and> \<not> oneOf k [''e'', ''E''] \<and> \<not> oneOf k [''d'', ''D''] \<and> \<not> oneOf k [''s'', ''S''] \<and> loadHostsFromFile e \<noteq> None")
  case True
  then obtain h where h: "loadHostsFromFile e = Some h" by auto
  let ?m1 = "setMessage ''Hosts reloaded'' (m\<lparr>hosts := h, results := replicate (length h) zeroResult, cursor := 0\<rparr>)"
  from True h assms(1) have "sortHosts e ?m1 = Inr m'"
    unfolding Update_modeList_def by (auto split: sum.splits)
  from sortHosts_frame[OF this] show ?thesis by (simp add: setMessage_def)
next
  case False
  then have "hosts m' = hosts m \<and> results m' = results m"
    using assms(1) unfolding Update_modeList_def
    by (auto simp: setMessage_def split: if_splits sum.splits option.splits)
  then show ?thesis using assms(2) by simp
qed

text \<open>
  Claim C9. Every application of an event that returns keeps the cursor in bounds: if the
  cursor is not negative, is zero when the host list is empty and is below the number of
  hosts otherwise, then the same holds of the model that \<open>Update\<close> returns.
\<close>

theorem cursor_in_bounds:
  assumes "cursor_ok m" and "Update e ms m = Inr (m', c)"
  shows "cursor_ok m'"
proof (cases ms)
  case (WindowSizeMsg w h)
  then show ?thesis using assms by (auto simp: Update_def cursor_ok_def)
next
  case (tickMsg t)
  then show ?thesis using assms by (auto simp: Update_def cursor_ok_def)
next
  case (pingResultsMsg batch)
  then have "Update_pingResults e batch m = Inr (m', c)" using assms(2) by (simp add: Update_def)
  from Update_pingResults_frame[OF this] have "hosts m' = hosts m \<and> cursor m' = cursor m"
    by (metis model.select_convs(1,3) model.surjective model.update_convs(2))
  then show ?thesis using assms(1) by (simp add: cursor_ok_def)
next
  case (KeyMsg k)
  consider "mode m = modeList" | "mode m = modeAdd \<or> mode m = modeEdit" | "mode m = modeConfirmDelete"
    | "mode m = modeOptions" by (cases "mode m") auto
  then show ?thesis
  proof cases
    case 1
    then show ?thesis using assms KeyMsg Update_modeList_cursor by (simp add: Update_def)
  next
    case 2
    then show ?thesis using assms KeyMsg Update_modeAddEdit_cursor by (auto simp: Update_def)
  next
    case 3
    then show ?thesis using assms KeyMsg Update_modeConfirmDelete_cursor by (simp add: Update_def)
  next
    case 4
    then have "Update_modeOptions e k m = Inr (m', c)" using assms(2) KeyMsg by (simp add: Update_def)
    from Update_modeOptions_frame[OF this] show ?thesis using assms(1) by (auto simp: cursor_ok_def)
  qed
next
  case OtherMsg
  then show ?thesis using assms by (auto simp: Update_def)
qed

text \<open>
  An instance: the deletion of the last row with the cursor on it moves the cursor to the
  new last row.
\<close>

theorem cursor_in_bounds_witness:
  "cursor_ok delete_model \<and>
   Update env0 (KeyMsg ''y'') delete_model =
     Inr (delete_model\<lparr>hosts := [\<lparr>Host = ''a.example'', Desc = ''A''\<rparr>],
            results := [\<lparr>status = True, reply = 12.3, lastChange = 100 * Second, flashUntil = 0\<rparr>],
            cursor := 0, message := ''Host deleted'', mode := modeList\<rparr>, CmdNone) \<and>
   cursor_ok (delete_model\<lparr>hosts := [\<lparr>Host = ''a.example'', Desc = ''A''\<rparr>],
            results := [\<lparr>status = True, reply = 12.3, lastChange = 100 * Second, flashUntil = 0\<rparr>],
            cursor := 0, message := ''Host deleted'', mode := modeList\<rparr>)"
proof -
  have h: "cursor_ok delete_model"
    by (simp add: cursor_ok_def delete_model_def example_model_def)
  have u: "Update env0 (KeyMsg ''y'') delete_model =
     Inr (delete_model\<lparr>hosts := [\<lparr>Host = ''a.example'', Desc = ''A''\<rparr>],
            results := [\<lparr>status = True, reply = 12.3, lastChange = 100 * Second, flashUntil = 0\<rparr>],
            cursor := 0, message := ''Host deleted'', mode := modeList\<rparr>, CmdNone)"
    by (simp add: Update_def Update_modeConfirmDelete_def oneOf_def delete_model_def example_model_def
        setMessage_def Let_def)
  show ?thesis using h u cursor_in_bounds[OF h u] by simp
qed

lemma Update_length:
  assumes "length (hosts m) = length (results m)" and "fresh ms m" and "Update e ms m = Inr (m', c)"
  shows "length (hosts m') = length (results m')"
proof (cases ms)
  case (WindowSizeMsg w h)
  then show ?thesis using assms by (auto simp: Update_def)
next
  case (tickMsg t)
  then show ?thesis using assms by (auto simp: Update_def)
next
  case (pingResultsMsg batch)
  then have u: "Update_pingResults e batch m = Inr (m', c)" using assms(3) by (simp add: Update_def)
  have "length batch = length (results m)" using assms(2) pingResultsMsg by (simp add: fresh_def)
  moreover from Update_pingResults_frame[OF u] have "hosts m' = hosts m \<and> length (results m') = length batch"
    by (metis model.select_convs(1) model.surjective model.update_convs(2))
  ultimately show ?thesis using assms(1) by simp
next
  case (KeyMsg k)
  consider "mode m = modeList" | "mode m = modeAdd \<or> mode m = modeEdit" | "mode m = modeConfirmDelete"
    | "mode m = modeOptions" by (cases "mode m") auto
  then show ?thesis
  proof cases
    case 1
    then show ?thesis using assms KeyMsg Update_modeList_length by (simp add: Update_def)
  next
    case 2
    then show ?thesis using assms KeyMsg Update_modeAddEdit_length by (auto simp: Update_def)
  next
    case 3
    then show ?thesis using assms KeyMsg Update_modeConfirmDelete_length by (simp add: Update_def)
  next
    case 4
    then have "Update_modeOptions e k m = Inr (m', c)" using assms(3) KeyMsg by (simp add: Update_def)
    from Update_modeOptions_frame[OF this] show ?thesis using assms(1) by auto
  qed
next
  case OtherMsg
  then show ?thesis using assms by (auto simp: Update_def)
qed

lemma main_model_returns: "\<exists>m0. main_model e0 hs = Inr m0 \<and> length (hosts m0) = length (results m0)"
proof -
  let ?m = "\<lparr>hosts = hs, results = replicate (length hs) zeroResult, cursor = 0, width = 0,
        height = 0, mode = modeList, inputHost = textinput_New, inputDesc = textinput_New,
        editIndex = 0, confirmIndex = 0, message = [], interval = 5 * Second,
        quitting = False, sortBy = ''name'', optInterval = textinput_New,
        optSortIndex = 0, optFocus = 0\<rparr>"
  have "length (results ?m) = length (hosts ?m)" by simp
  from sortHosts_permutes[OF this, of e0] show ?thesis
    by (auto simp: main_model_def)
qed

lemma run_length:
  "length (hosts m0) = length (results m0) \<Longrightarrow> fresh_run evs m0 \<Longrightarrow> run evs m0 = Inr m \<Longrightarrow>
   length (hosts m) = length (results m)"
proof (induction evs arbitrary: m0)
  case Nil
  then show ?case by simp
next
  case (Cons ev evs)
  obtain e ms where ev: "ev = (e, ms)" by (cases ev)
  from Cons.prems(3) ev obtain m1 c where u: "Update e ms m0 = Inr (m1, c)" and r: "run evs m1 = Inr m"
    by (auto split: sum.splits)
  have f: "fresh ms m0" and fr: "fresh_run evs m1" using Cons.prems(2) ev u by auto
  have "length (hosts m1) = length (results m1)" using Cons.prems(1) f u by (rule Update_length)
  then show ?case using fr r by (rule Cons.IH)
qed

lemma main_model_example: "main_model env0 example_hosts = Inr initial_example"
  by (simp add: main_model_def sortHosts_def sortedIdx_def SliceStable_def example_hosts_def initial_example_def
      less_idx_def lessName_def index_def store_def upt_rec ToLower_def lowerChar_def zeroHost_def)

lemma run_fresh_events:
  "run fresh_events initial_example =
     Inr (initial_example\<lparr>hosts := [\<lparr>Host = ''b.example'', Desc = ''B''\<rparr>],
            results := [\<lparr>status = True, reply = 3.5, lastChange = 1000 * Second, flashUntil = 1002 * Second\<rparr>],
            confirmIndex := 0, message := ''Host deleted''\<rparr>)"
  by (simp add: fresh_events_def initial_example_def example_batch_def env0_def Update_def
      Update_pingResults_def Update_modeList_def Update_modeConfirmDelete_def oneOf_def
      index_def store_def reconcile_def zeroResult_def Let_def IsZero_def After_def Second_def
      setMessage_def tickCmd_def)

lemma fresh_run_fresh_events: "fresh_run fresh_events initial_example"
  by (simp add: fresh_events_def initial_example_def example_batch_def env0_def Update_def
      Update_pingResults_def Update_modeList_def Update_modeConfirmDelete_def oneOf_def
      index_def store_def reconcile_def zeroResult_def Let_def IsZero_def After_def Second_def
      setMessage_def tickCmd_def fresh_def)

text \<open>
  Claim C8. Enter on the description field of the add or edit form with an address that
  is empty once trimmed, and enter on the sort list of the options dialog with an
  interval string that \<open>time.ParseDuration\<close> rejects or whose value is below 0.5 s or
  above 5 s, change nothing of the model but the message, which is set: the mode, the
  dialog, the hosts, the status records, the interval and the sort preference are
  unchanged and no command is issued. An interval from 0.5 s to 5 s, bounds included, is
  accepted: it is committed with the selected sort key and the mode returns to the list.
\<close>

theorem validation_rejects:
  "(\<not> Focused (inputHost m) \<and> (mode m = modeAdd \<or> mode m = modeEdit) \<and>
      TrimSpace (Value (inputHost m)) = [] \<longrightarrow>
      Update e (KeyMsg ''enter'') m = Inr (m\<lparr>message := ''Host cannot be empty''\<rparr>, CmdNone)) \<and>
   (mode m = modeOptions \<and> optFocus m \<noteq> 0 \<and>
      ParseDuration e (ReplaceComma (TrimSpace (Value (optInterval m))) @ ''s'') = None \<longrightarrow>
      Update e (KeyMsg ''enter'') m =
        Inr (m\<lparr>message := ''Invalid interval; please specify seconds between 0.5 and 5''\<rparr>, CmdNone)) \<and>
   (mode m = modeOptions \<and> optFocus m \<noteq> 0 \<and>
      ParseDuration e (ReplaceComma (TrimSpace (Value (optInterval m))) @ ''s'') = Some d \<and>
      (Seconds d < 0.5 \<or> Seconds d > 5) \<longrightarrow>
      Update e (KeyMsg ''enter'') m =
        Inr (m\<lparr>message := ''Interval must be between 0.5 and 5 seconds''\<rparr>, CmdNone)) \<and>
   (mode m = modeOptions \<and> optFocus m \<noteq> 0 \<and>
      ParseDuration e (ReplaceComma (TrimSpace (Value (optInterval m))) @ ''s'') = Some d \<and>
      0.5 \<le> Seconds d \<and> Seconds d \<le> 5 \<and>
      0 \<le> optSortIndex m \<and> optSortIndex m < int (length sortChoices) \<and>
      length (results m) = length (hosts m) \<longrightarrow>
      (\<exists>m'. Update e (KeyMsg ''enter'') m = Inr (m', pingAllCmd (hosts m')) \<and>
         interval m' = d \<and> sortBy m' = sortChoices ! nat (optSortIndex m) \<and> mode m' = modeList))"
proof (intro conjI impI)
  assume "\<not> Focused (inputHost m) \<and> (mode m = modeAdd \<or> mode m = modeEdit) \<and>
      TrimSpace (Value (inputHost m)) = []"
  then show "Update e (KeyMsg ''enter'') m = Inr (m\<lparr>message := ''Host cannot be empty''\<rparr>, CmdNone)"
    by (auto simp: Update_def Update_modeAddEdit_def confirmAddEdit_def setMessage_def)
next
  assume "mode m = modeOptions \<and> optFocus m \<noteq> 0 \<and>
      ParseDuration e (ReplaceComma (TrimSpace (Value (optInterval m))) @ ''s'') = None"
  then show "Update e (KeyMsg ''enter'') m =
        Inr (m\<lparr>message := ''Invalid interval; please specify seconds between 0.5 and 5''\<rparr>, CmdNone)"
    by (simp add: Update_def Update_modeOptions_def confirmOptions_def setMessage_def)
next
  assume "mode m = modeOptions \<and> optFocus m \<noteq> 0 \<and>
      ParseDuration e (ReplaceComma (TrimSpace (Value (optInterval m))) @ ''s'') = Some d \<and>
      (Seconds d < 0.5 \<or> Seconds d > 5)"
  then show "Update e (KeyMsg ''enter'') m =
        Inr (m\<lparr>message := ''Interval must be between 0.5 and 5 seconds''\<rparr>, CmdNone)"
    by (auto simp: Update_def Update_modeOptions_def confirmOptions_def setMessage_def)
next
  assume a: "mode m = modeOptions \<and> optFocus m \<noteq> 0 \<and>
      ParseDuration e (ReplaceComma (TrimSpace (Value (optInterval m))) @ ''s'') = Some d \<and>
      0.5 \<le> Seconds d \<and> Seconds d \<le> 5 \<and>
      0 \<le> optSortIndex m \<and> optSortIndex m < int (length sortChoices) \<and>
      length (results m) = length (hosts m)"
  let ?m1 = "m\<lparr>interval := d, sortBy := sortChoices ! nat (optSortIndex m)\<rparr>"
  have "length (results ?m1) = length (hosts ?m1)" using a by simp
  from sortHosts_permutes[OF this, of e] obtain m2 where s: "sortHosts e ?m1 = Inr m2" by blast
  from sortHosts_frame[OF s] have f: "m2 = ?m1\<lparr>hosts := hosts m2, results := results m2\<rparr>" by simp
  have i: "interval m2 = d" and sb: "sortBy m2 = sortChoices ! nat (optSortIndex m)"
    by (subst f, simp)+
  have "Update e (KeyMsg ''enter'') m =
      Inr (m2\<lparr>results := map (remap (hosts m) (results m)) (hosts m2), cursor := 0, mode := modeList\<rparr>,
           pingAllCmd (hosts m2))"
    using a s by (simp add: Update_def Update_modeOptions_def confirmOptions_def indexInt_def)
  then show "\<exists>m'. Update e (KeyMsg ''enter'') m = Inr (m', pingAllCmd (hosts m')) \<and>
         interval m' = d \<and> sortBy m' = sortChoices ! nat (optSortIndex m) \<and> mode m' = modeList"
    using i sb by simp
qed

lemma TrimSpace_examples:
  "TrimSpace ''  '' = []" "TrimSpace ''abc'' = ''abc''" "TrimSpace ''0.4'' = ''0.4''"
  "TrimSpace '' 6'' = ''6''" "TrimSpace ''0.5'' = ''0.5''" "TrimSpace ''5.0'' = ''5.0''"
  "TrimSpace ''2,5'' = ''2,5''" "TrimSpace ''b.example'' = ''b.example''" "TrimSpace ''B'' = ''B''"
  "TrimSpace [CHR 0xC2, CHR 0xA0, CHR 0x20] = []"
  "TrimSpace ''c.example '' = ''c.example''" "TrimSpace ''C'' = ''C''"
  by code_simp+

text \<open>
  Instances: a blank address, an address of a no-break space and a blank, the intervals \<open>abc\<close>, \<open>0.4\<close> and \<open>6\<close> are rejected;
  \<open>0.5\<close>, \<open>5.0\<close> and \<open>2,5\<close> (with a decimal comma) are accepted.
\<close>

theorem validation_rejects_witness:
  "Update env0 (KeyMsg ''enter'') (add_model ''  '') =
     Inr ((add_model ''  '')\<lparr>message := ''Host cannot be empty''\<rparr>, CmdNone) \<and>
   Update env0 (KeyMsg ''enter'') (add_model [CHR 0xC2, CHR 0xA0, CHR 0x20]) =
     Inr ((add_model [CHR 0xC2, CHR 0xA0, CHR 0x20])\<lparr>message := ''Host cannot be empty''\<rparr>, CmdNone) \<and>
   Update parse_env (KeyMsg ''enter'') (options_model ''abc'') =
     Inr ((options_model ''abc'')\<lparr>message := ''Invalid interval; please specify seconds between 0.5 and 5''\<rparr>, CmdNone) \<and>
   Update parse_env (KeyMsg ''enter'') (options_model ''0.4'') =
     Inr ((options_model ''0.4'')\<lparr>message := ''Interval must be between 0.5 and 5 seconds''\<rparr>, CmdNone) \<and>
   Update parse_env (KeyMsg ''enter'') (options_model '' 6'') =
     Inr ((options_model '' 6'')\<lparr>message := ''Interval must be between 0.5 and 5 seconds''\<rparr>, CmdNone) \<and>
   (\<exists>m'. Update parse_env (KeyMsg ''enter'') (options_model ''0.5'') = Inr (m', pingAllCmd (hosts m')) \<and>
      interval m' = 500000000 \<and> sortBy m' = ''status'' \<and> mode m' = modeList) \<and>
   (\<exists>m'. Update parse_env (KeyMsg ''enter'') (options_model ''5.0'') = Inr (m', pingAllCmd (hosts m')) \<and>
      interval m' = 5000000000 \<and> sortBy m' = ''status'' \<and> mode m' = modeList) \<and>
   (\<exists>m'. Update parse_env (KeyMsg ''enter'') (options_model ''2,5'') = Inr (m', pingAllCmd (hosts m')) \<and>
      interval m' = 2500000000 \<and> sortBy m' = ''status'' \<and> mode m' = modeList)"
  using validation_rejects[of "add_model ''  ''" env0 0]
    validation_rejects[of "add_model [CHR 0xC2, CHR 0xA0, CHR 0x20]" env0 0]
    validation_rejects[of "options_model ''abc''" parse_env 0]
    validation_rejects[of "options_model ''0.4''" parse_env 400000000]
    validation_rejects[of "options_model '' 6''" parse_env 6000000000]
    validation_rejects[of "options_model ''0.5''" parse_env 500000000]
    validation_rejects[of "options_model ''5.0''" parse_env 5000000000]
    validation_rejects[of "options_model ''2,5''" parse_env 2500000000]
  by (simp add: add_model_def options_model_def example_model_def parse_env_def env0_def
      exampleParseDuration_def TrimSpace_examples ReplaceComma_def Seconds_def sortChoices_def)

text \<open>
  Claim C3 fails on the code. Under the sort key \<open>ip\<close>, with \<open>b.example\<close> resolving
  to an address below that of \<open>a.example\<close>, the confirmation of the add form for
  \<open>b.example\<close> leaves the list in the order of the names, \<open>a.example\<close> first, and the
  cursor on row 1; \<open>sortHosts\<close>, which applies the sort preference, orders
  \<open>b.example\<close> first.
\<close>

theorem add_ignores_sort_preference:
  "Update ip_env (KeyMsg ''enter'') (add_model ''b.example'') =
     Inr ((add_model ''b.example'')
            \<lparr>hosts := [\<lparr>Host = ''a.example'', Desc = ''A''\<rparr>, \<lparr>Host = ''b.example'', Desc = ''B''\<rparr>],
             results := [zeroResult, zeroResult], cursor := 1, mode := modeList\<rparr>,
          CmdPingAll [\<lparr>Host = ''a.example'', Desc = ''A''\<rparr>, \<lparr>Host = ''b.example'', Desc = ''B''\<rparr>]) \<and>
   map_sum id (map Host \<circ> hosts)
     (sortHosts ip_env ((add_model ''b.example'')
            \<lparr>hosts := [\<lparr>Host = ''a.example'', Desc = ''A''\<rparr>, \<lparr>Host = ''b.example'', Desc = ''B''\<rparr>],
             results := [zeroResult, zeroResult], cursor := 1, mode := modeList\<rparr>))
     = Inr [''b.example'', ''a.example'']"
  by (simp add: Update_def Update_modeAddEdit_def confirmAddEdit_def add_model_def example_model_def
      TrimSpace_examples Let_def lessHost_def ToLower_def lowerChar_def pingAllCmd_def
      sortHosts_def sortedIdx_def SliceStable_def less_idx_def index_def store_def upt_rec ip_env_def env0_def
      resolved_def zeroHost_def)

section \<open>Lengths and alignment of the two sequences\<close>

lemma mset_insertSlice: "mset (insertSlice p x ys) = add_mset x (mset ys)"
  by (induction ys) auto

lemma mset_Slice: "mset (Slice p xs) = mset xs"
  by (induction xs) (auto simp: mset_insertSlice)

lemma firstIndex_first:
  "\<exists>x \<in> set xs. P x \<Longrightarrow>
   \<exists>j. firstIndex P i xs = Some (i + j) \<and> j < length xs \<and> P (xs ! j) \<and> (\<forall>l < j. \<not> P (xs ! l))"
proof (induction xs arbitrary: i)
  case Nil
  then show ?case by simp
next
  case (Cons x xs)
  show ?case
  proof (cases "P x")
    case True
    then have "firstIndex P i (x # xs) = Some (i + 0) \<and> 0 < length (x # xs) \<and> P ((x # xs) ! 0) \<and>
        (\<forall>l < 0. \<not> P ((x # xs) ! l))" by simp
    then show ?thesis by blast
  next
    case False
    then have "\<exists>x \<in> set xs. P x" using Cons.prems by auto
    from Cons.IH[OF this, of "Suc i"] obtain j where
      j: "firstIndex P (Suc i) xs = Some (Suc i + j)" "j < length xs" "P (xs ! j)" "\<forall>l < j. \<not> P (xs ! l)"
      by blast
    have "firstIndex P i (x # xs) = Some (i + Suc j)" using False j(1) by simp
    moreover have "Suc j < length (x # xs)" using j(2) by simp
    moreover have "P ((x # xs) ! Suc j)" using j(3) by simp
    moreover have "\<forall>l < Suc j. \<not> P ((x # xs) ! l)" using False j(4) by (auto simp: less_Suc_eq_0_disj)
    ultimately show ?thesis by blast
  qed
qed

lemma remap_distinct:
  assumes "length oldResults = length oldHosts" and "distinct (map Host oldHosts)"
    and "original < length oldHosts"
  shows "remap oldHosts oldResults (oldHosts ! original) = oldResults ! original"
proof -
  let ?P = "\<lambda>(j, oh). Host (oldHosts ! original) = Host oh \<and> j < length oldResults"
  let ?xs = "zip [0 ..< length oldHosts] oldHosts"
  have "(original, oldHosts ! original) \<in> set ?xs"
    using assms(3) by (auto simp: set_zip intro!: exI[of _ original])
  moreover have "?P (original, oldHosts ! original)" using assms by simp
  ultimately have "\<exists>x \<in> set ?xs. ?P x" by blast
  from firstIndex_first[OF this, of 0] obtain j where
    f: "firstIndex ?P 0 ?xs = Some j" and j: "j < length ?xs" and p: "?P (?xs ! j)" by auto
  have jl: "j < length oldHosts" using j by simp
  then have "?xs ! j = (j, oldHosts ! j)" by simp
  then have "Host (oldHosts ! original) = Host (oldHosts ! j)" using p by simp
  then have "map Host oldHosts ! original = map Host oldHosts ! j" using jl assms(3) by simp
  then have "j = original"
    using assms(2,3) jl by (metis distinct_conv_nth length_map)
  then show ?thesis using f by (simp add: remap_def)
qed

lemma mset_map_nth:
  assumes "mset idx = mset [0 ..< length xs]"
  shows "mset (map ((!) xs) idx) = mset xs"
proof -
  have "mset (map ((!) xs) idx) = image_mset ((!) xs) (mset idx)" by simp
  also have "\<dots> = mset (map ((!) xs) [0 ..< length xs])" using assms by simp
  finally show ?thesis by (simp add: map_nth)
qed

lemma map_nth_replicate:
  assumes "mset idx = mset [0 ..< n]"
  shows "map ((!) (replicate n v)) idx = replicate (length idx) v"
proof -
  have "set idx = {0 ..< n}" using assms by (metis set_mset_mset set_upt)
  then have "\<forall>original \<in> set idx. replicate n v ! original = v" by simp
  then show ?thesis by (simp add: map_replicate_const[symmetric] cong: map_cong)
qed

lemma set_of_perm:
  assumes "mset idx = mset [0 ..< n]"
  shows "set idx = {0 ..< n}"
  using assms by (metis set_mset_mset set_upt)

lemma delete_lockstep:
  assumes "mode m = modeConfirmDelete" and "oneOf k [''y'', ''Y'']"
    and "0 \<le> confirmIndex m" and "confirmIndex m < int (length (hosts m))"
    and "length (hosts m) = length (results m)"
  shows "\<exists>m'. Update e (KeyMsg k) m = Inr (m', CmdNone) \<and>
      hosts m' = take (nat (confirmIndex m)) (hosts m) @ drop (Suc (nat (confirmIndex m))) (hosts m) \<and>
      results m' = take (nat (confirmIndex m)) (results m) @ drop (Suc (nat (confirmIndex m))) (results m)"
  using assms by (simp add: Update_def Update_modeConfirmDelete_def Let_def setMessage_def)

lemma add_lockstep:
  assumes "mode m = modeAdd" and "\<not> Focused (inputHost m)"
    and "TrimSpace (Value (inputHost m)) \<noteq> []"
  shows "\<exists>m'. Update e (KeyMsg ''enter'') m = Inr (m', pingAllCmd (hosts m')) \<and>
      mset (hosts m') =
        mset (hosts m @ [\<lparr>Host = TrimSpace (Value (inputHost m)),
                          Desc = TrimSpace (Value (inputDesc m))\<rparr>]) \<and>
      results m' = replicate (length (hosts m')) zeroResult"
  using assms
  by (simp add: Update_def Update_modeAddEdit_def confirmAddEdit_def Let_def mset_Slice)

lemma edit_lockstep:
  assumes "mode m = modeEdit" and "\<not> Focused (inputHost m)"
    and "TrimSpace (Value (inputHost m)) \<noteq> []"
    and "0 \<le> editIndex m" and "editIndex m < int (length (hosts m))"
  shows "\<exists>m'. Update e (KeyMsg ''enter'') m = Inr (m', pingAllCmd (hosts m')) \<and>
      mset (hosts m') =
        mset ((hosts m)[nat (editIndex m) :=
                \<lparr>Host = TrimSpace (Value (inputHost m)),
                 Desc = TrimSpace (Value (inputDesc m))\<rparr>]) \<and>
      results m' = replicate (length (hosts m')) zeroResult"
  using assms
  by (simp add: Update_def Update_modeAddEdit_def confirmAddEdit_def Let_def mset_Slice)

lemma reload_lockstep:
  assumes "mode m = modeList" and "oneOf k [''r'', ''R'']" and "loadHostsFromFile e = Some h"
  shows "\<exists>m'. Update e (KeyMsg k) m = Inr (m', pingAllCmd (hosts m')) \<and>
      mset (hosts m') = mset h \<and>
      results m' = replicate (length (hosts m')) zeroResult"
proof -
  let ?m1 = "setMessage ''Hosts reloaded'' (m\<lparr>hosts := h, results := replicate (length h) zeroResult, cursor := 0\<rparr>)"
  have k: "\<not> oneOf k [''ctrl+c'', ''q'', ''Q'']" "\<not> oneOf k [''up'', ''k'', ''K'']"
    "\<not> oneOf k [''down'', ''j'', ''J'']" "\<not> oneOf k [''a'', ''A'']" "\<not> oneOf k [''e'', ''E'']"
    "\<not> oneOf k [''d'', ''D'']" "\<not> oneOf k [''s'', ''S'']"
    using assms(2) by (auto simp: oneOf_def)
  have len: "length (results ?m1) = length (hosts ?m1)" by (simp add: setMessage_def)
  from sortHosts_permutes[OF len, of e] obtain idx where
    p: "mset idx = mset [0 ..< length h]"
    and s: "sortHosts e ?m1 = Inr (?m1\<lparr>hosts := map ((!) h) idx,
              results := map ((!) (replicate (length h) zeroResult)) idx\<rparr>)"
    by (auto simp: setMessage_def)
  let ?m' = "?m1\<lparr>hosts := map ((!) h) idx, results := map ((!) (replicate (length h) zeroResult)) idx\<rparr>"
  have "Update e (KeyMsg k) m = Inr (?m', pingAllCmd (hosts ?m'))"
    using assms k s by (simp add: Update_def Update_modeList_def)
  moreover have "mset (hosts ?m') = mset h" using mset_map_nth[OF p] by simp
  moreover have "results ?m' = replicate (length (hosts ?m')) zeroResult"
    using map_nth_replicate[OF p] by simp
  ultimately show ?thesis by blast
qed

lemma options_lockstep:
  assumes "mode m = modeOptions" and "optFocus m \<noteq> 0"
    and "ParseDuration e (ReplaceComma (TrimSpace (Value (optInterval m))) @ ''s'') = Some d"
    and "0.5 \<le> Seconds d" and "Seconds d \<le> 5"
    and "0 \<le> optSortIndex m" and "optSortIndex m < int (length sortChoices)"
    and "length (hosts m) = length (results m)"
  shows "\<exists>idx m'. Update e (KeyMsg ''enter'') m = Inr (m', pingAllCmd (hosts m')) \<and>
      mset idx = mset [0 ..< length (hosts m)] \<and>
      hosts m' = map ((!) (hosts m)) idx \<and>
      length (results m') = length (hosts m') \<and>
      (distinct (map Host (hosts m)) \<longrightarrow> results m' = map ((!) (results m)) idx)"
proof -
  let ?m1 = "m\<lparr>interval := d, sortBy := sortChoices ! nat (optSortIndex m)\<rparr>"
  have len: "length (results ?m1) = length (hosts ?m1)" using assms(8) by simp
  from sortHosts_permutes[OF len, of e] obtain idx where
    p: "mset idx = mset [0 ..< length (hosts m)]"
    and s: "sortHosts e ?m1 = Inr (?m1\<lparr>hosts := map ((!) (hosts m)) idx,
              results := map ((!) (results m)) idx\<rparr>)"
    by auto
  let ?m2 = "?m1\<lparr>hosts := map ((!) (hosts m)) idx, results := map ((!) (results m)) idx\<rparr>"
  let ?m' = "?m2\<lparr>results := map (remap (hosts m) (results m)) (hosts ?m2), cursor := 0, mode := modeList\<rparr>"
  have u: "Update e (KeyMsg ''enter'') m = Inr (?m', pingAllCmd (hosts ?m'))"
    using assms s by (simp add: Update_def Update_modeOptions_def confirmOptions_def indexInt_def)
  have "distinct (map Host (hosts m)) \<longrightarrow> results ?m' = map ((!) (results m)) idx"
  proof
    assume d: "distinct (map Host (hosts m))"
    have "\<forall>original \<in> set idx. remap (hosts m) (results m) (hosts m ! original) = results m ! original"
      using remap_distinct[OF assms(8)[symmetric] d] set_of_perm[OF p] by simp
    then show "results ?m' = map ((!) (results m)) idx" by simp
  qed
  moreover have "hosts ?m' = map ((!) (hosts m)) idx" by simp
  moreover have "length (results ?m') = length (hosts ?m')" by simp
  ultimately show ?thesis using u p by blast
qed

lemma stale_resizes:
  assumes "length batch \<noteq> length (results m)"
  shows "\<exists>m'. Update e (pingResultsMsg batch) m = Inr (m', tickCmd m) \<and>
      hosts m' = hosts m \<and> length (results m') = length batch"
  using assms by (simp add: Update_def Update_pingResults_def applyBatch_fresh)

text \<open>
  Claim C2, as the code has it. \<open>main\<close> builds a model for every loaded host list, and
  in every state reached from it by a sequence of events in which every delivered batch
  has the length of the current status sequence, the host sequence and the status
  sequence have the same length. From a state where they have, each operation keeps the
  two sequences aligned by index: a delivered batch of that length leaves the hosts and
  rebuilds record \<open>i\<close> from record \<open>i\<close> and outcome \<open>i\<close>; a confirmed deletion removes
  the host and the record at the same index; the confirmation of an add or an edit
  appends or overwrites the host, reorders the hosts and rebuilds all records unset at
  the new length; a reload takes the loaded hosts, reordered, with all records unset; a
  resort applies one permutation to both sequences; an options confirm applies one
  permutation to the hosts and, when the addresses are pairwise distinct, the same
  permutation to the records. A delivered batch of another length leaves the hosts and
  resizes the status sequence to its own length.
\<close>

theorem lengths_equal_on_fresh_runs:
  "(\<exists>m0. main_model e0 hs = Inr m0 \<and>
      (\<forall>evs m. fresh_run evs m0 \<and> run evs m0 = Inr m \<longrightarrow> length (hosts m) = length (results m))) \<and>
   (length (hosts m) = length (results m) \<longrightarrow>
      (length batch = length (results m) \<longrightarrow>
         (\<exists>m'. Update e (pingResultsMsg batch) m = Inr (m', tickCmd m) \<and>
            hosts m' = hosts m \<and> length (results m') = length (hosts m') \<and>
            (\<forall>i < length batch. results m' ! i = reconcile (now e) (results m ! i) (batch ! i)))) \<and>
      (mode m = modeConfirmDelete \<and> oneOf k [''y'', ''Y''] \<and>
       0 \<le> confirmIndex m \<and> confirmIndex m < int (length (hosts m)) \<longrightarrow>
         (\<exists>m'. Update e (KeyMsg k) m = Inr (m', CmdNone) \<and>
            hosts m' = take (nat (confirmIndex m)) (hosts m) @ drop (Suc (nat (confirmIndex m))) (hosts m) \<and>
            results m' = take (nat (confirmIndex m)) (results m) @ drop (Suc (nat (confirmIndex m))) (results m))) \<and>
      (mode m = modeAdd \<and> \<not> Focused (inputHost m) \<and> TrimSpace (Value (inputHost m)) \<noteq> [] \<longrightarrow>
         (\<exists>m'. Update e (KeyMsg ''enter'') m = Inr (m', pingAllCmd (hosts m')) \<and>
            mset (hosts m') =
              mset (hosts m @ [\<lparr>Host = TrimSpace (Value (inputHost m)),
                                Desc = TrimSpace (Value (inputDesc m))\<rparr>]) \<and>
            results m' = replicate (length (hosts m')) zeroResult)) \<and>
      (mode m = modeEdit \<and> \<not> Focused (inputHost m) \<and> TrimSpace (Value (inputHost m)) \<noteq> [] \<and>
       0 \<le> editIndex m \<and> editIndex m < int (length (hosts m)) \<longrightarrow>
         (\<exists>m'. Update e (KeyMsg ''enter'') m = Inr (m', pingAllCmd (hosts m')) \<and>
            mset (hosts m') =
              mset ((hosts m)[nat (editIndex m) :=
                      \<lparr>Host = TrimSpace (Value (inputHost m)),
                       Desc = TrimSpace (Value (inputDesc m))\<rparr>]) \<and>
            results m' = replicate (length (hosts m')) zeroResult)) \<and>
      (mode m = modeList \<and> oneOf k [''r'', ''R''] \<and> loadHostsFromFile e = Some h \<longrightarrow>
         (\<exists>m'. Update e (KeyMsg k) m = Inr (m', pingAllCmd (hosts m')) \<and>
            mset (hosts m') = mset h \<and>
            results m' = replicate (length (hosts m')) zeroResult)) \<and>
      (\<exists>idx m'. sortHosts e m = Inr m' \<and> mset idx = mset [0 ..< length (hosts m)] \<and>
         hosts m' = map ((!) (hosts m)) idx \<and> results m' = map ((!) (results m)) idx) \<and>
      (mode m = modeOptions \<and> optFocus m \<noteq> 0 \<and>
       ParseDuration e (ReplaceComma (TrimSpace (Value (optInterval m))) @ ''s'') = Some d \<and>
       0.5 \<le> Seconds d \<and> Seconds d \<le> 5 \<and>
       0 \<le> optSortIndex m \<and> optSortIndex m < int (length sortChoices) \<longrightarrow>
         (\<exists>idx m'. Update e (KeyMsg ''enter'') m = Inr (m', pingAllCmd (hosts m')) \<and>
            mset idx = mset [0 ..< length (hosts m)] \<and>
            hosts m' = map ((!) (hosts m)) idx \<and>
            length (results m') = length (hosts m') \<and>
            (distinct (map Host (hosts m)) \<longrightarrow> results m' = map ((!) (results m)) idx)))) \<and>
   (length batch \<noteq> length (results m) \<longrightarrow>
      (\<exists>m'. Update e (pingResultsMsg batch) m = Inr (m', tickCmd m) \<and>
         hosts m' = hosts m \<and> length (results m') = length batch))"
  (is "?A \<and> (?L \<longrightarrow> (?H1 \<longrightarrow> ?C1) \<and> (?H2 \<longrightarrow> ?C2) \<and> (?H3 \<longrightarrow> ?C3) \<and> (?H4 \<longrightarrow> ?C4) \<and>
        (?H5 \<longrightarrow> ?C5) \<and> ?C6 \<and> (?H7 \<longrightarrow> ?C7)) \<and> (?H8 \<longrightarrow> ?C8)")
proof -
  have a: ?A using main_model_returns[of e0 hs] run_length by blast
  have 1: ?C1 if ?L ?H1
  proof -
    from Update_pingResults_matching[OF that(2), of e] obtain m' where
      "Update e (pingResultsMsg batch) m = Inr (m', tickCmd m)" "m' = m\<lparr>results := results m'\<rparr>"
      "length (results m') = length batch"
      "\<forall>k < length batch. results m' ! k = reconcile (now e) (results m ! k) (batch ! k)"
      by blast
    moreover from this(2) have "hosts m' = hosts m"
      by (metis model.select_convs(1) model.surjective model.update_convs(2))
    ultimately show ?thesis using that by auto
  qed
  have 2: ?C2 if ?L ?H2 using that delete_lockstep[of m k e] by blast
  have 3: ?C3 if ?H3 using that add_lockstep[of m e] by blast
  have 4: ?C4 if ?H4 using that edit_lockstep[of m e] by blast
  have 5: ?C5 if ?H5 using that reload_lockstep[of m k e h] by blast
  have 6: ?C6 if ?L using sortHosts_permutes[OF that[symmetric], of e] by auto
  have 7: ?C7 if ?L ?H7 using that options_lockstep[of m e d] by blast
  have 8: ?C8 if ?H8 using that by (rule stale_resizes)
  show ?thesis using a 1 2 3 4 5 6 7 8 by blast
qed

text \<open>
  Instances: a run in which the first batch is delivered and the first host is then
  deleted; a batch for two hosts; the deletion of the last row; an add; an edit of row 0;
  a reload of two hosts; a resort by latency; an options confirm; a batch of three
  outcomes delivered to two hosts.
\<close>

theorem lengths_equal_on_fresh_runs_witness:
  "(main_model env0 example_hosts = Inr initial_example \<and> fresh_run fresh_events initial_example \<and>
    (\<exists>m. run fresh_events initial_example = Inr m \<and> length (hosts m) = length (results m))) \<and>
   (length (hosts (example_model)) = length (results (example_model)) \<and>
    length example_batch = length (results example_model) \<and>
    (\<exists>m'. Update env0 (pingResultsMsg example_batch) example_model = Inr (m', tickCmd example_model) \<and>
      hosts m' = hosts example_model \<and> length (results m') = length (hosts m') \<and>
      results m' ! 0 = reconcile (now env0) (results example_model ! 0) (example_batch ! 0) \<and>
      results m' ! 1 = reconcile (now env0) (results example_model ! 1) (example_batch ! 1))) \<and>
   (length (hosts (delete_model)) = length (results (delete_model)) \<and>
    mode delete_model = modeConfirmDelete \<and> oneOf ''y'' [''y'', ''Y''] \<and>
      0 \<le> confirmIndex delete_model \<and> confirmIndex delete_model < int (length (hosts delete_model)) \<and>
    (\<exists>m'. Update env0 (KeyMsg ''y'') delete_model = Inr (m', CmdNone) \<and>
      hosts m' = take (nat (confirmIndex delete_model)) (hosts delete_model) @
                 drop (Suc (nat (confirmIndex delete_model))) (hosts delete_model) \<and>
      results m' = take (nat (confirmIndex delete_model)) (results delete_model) @
                   drop (Suc (nat (confirmIndex delete_model))) (results delete_model))) \<and>
   (length (hosts (add_model ''b.example'')) = length (results (add_model ''b.example'')) \<and>
    mode (add_model ''b.example'') = modeAdd \<and> \<not> Focused (inputHost (add_model ''b.example'')) \<and>
      TrimSpace (Value (inputHost (add_model ''b.example''))) \<noteq> [] \<and>
    (\<exists>m'. Update ip_env (KeyMsg ''enter'') (add_model ''b.example'') = Inr (m', pingAllCmd (hosts m')) \<and>
      mset (hosts m') =
        mset (hosts (add_model ''b.example'') @
              [\<lparr>Host = TrimSpace (Value (inputHost (add_model ''b.example''))),
                Desc = TrimSpace (Value (inputDesc (add_model ''b.example'')))\<rparr>]) \<and>
      results m' = replicate (length (hosts m')) zeroResult)) \<and>
   (length (hosts (edit_model)) = length (results (edit_model)) \<and>
    mode edit_model = modeEdit \<and> \<not> Focused (inputHost edit_model) \<and>
      TrimSpace (Value (inputHost edit_model)) \<noteq> [] \<and>
      0 \<le> editIndex edit_model \<and> editIndex edit_model < int (length (hosts edit_model)) \<and>
    (\<exists>m'. Update env0 (KeyMsg ''enter'') edit_model = Inr (m', pingAllCmd (hosts m')) \<and>
      mset (hosts m') =
        mset ((hosts edit_model)[nat (editIndex edit_model) :=
                \<lparr>Host = TrimSpace (Value (inputHost edit_model)),
                 Desc = TrimSpace (Value (inputDesc edit_model))\<rparr>]) \<and>
      results m' = replicate (length (hosts m')) zeroResult)) \<and>
   (length (hosts (example_model)) = length (results (example_model)) \<and>
    mode example_model = modeList \<and> oneOf ''r'' [''r'', ''R''] \<and>
      loadHostsFromFile reload_env = Some example_hosts \<and>
    (\<exists>m'. Update reload_env (KeyMsg ''r'') example_model = Inr (m', pingAllCmd (hosts m')) \<and>
      mset (hosts m') = mset example_hosts \<and>
      results m' = replicate (length (hosts m')) zeroResult)) \<and>
   (length (hosts (unparsed_model)) = length (results (unparsed_model)) \<and>
    (\<exists>idx m'. sortHosts env0 unparsed_model = Inr m' \<and>
      mset idx = mset [0 ..< length (hosts unparsed_model)] \<and>
      hosts m' = map ((!) (hosts unparsed_model)) idx \<and>
      results m' = map ((!) (results unparsed_model)) idx)) \<and>
   (length (hosts (options_model ''0.5'')) = length (results (options_model ''0.5'')) \<and>
    mode (options_model ''0.5'') = modeOptions \<and> optFocus (options_model ''0.5'') \<noteq> 0 \<and>
      ParseDuration parse_env (ReplaceComma (TrimSpace (Value (optInterval (options_model ''0.5'')))) @ ''s'') = Some 500000000 \<and>
      0.5 \<le> Seconds 500000000 \<and> Seconds 500000000 \<le> 5 \<and>
      0 \<le> optSortIndex (options_model ''0.5'') \<and> optSortIndex (options_model ''0.5'') < int (length sortChoices) \<and>
    distinct (map Host (hosts (options_model ''0.5''))) \<and>
    (\<exists>idx m'. Update parse_env (KeyMsg ''enter'') (options_model ''0.5'') = Inr (m', pingAllCmd (hosts m')) \<and>
      mset idx = mset [0 ..< length (hosts (options_model ''0.5''))] \<and>
      hosts m' = map ((!) (hosts (options_model ''0.5''))) idx \<and>
      length (results m') = length (hosts m') \<and>
      results m' = map ((!) (results (options_model ''0.5''))) idx)) \<and>
   (length stale_batch \<noteq> length (results example_model) \<and>
    (\<exists>m'. Update env0 (pingResultsMsg stale_batch) example_model = Inr (m', tickCmd example_model) \<and>
      hosts m' = hosts example_model \<and> length (results m') = length stale_batch))"
proof -
  have a: "main_model env0 example_hosts = Inr initial_example \<and> fresh_run fresh_events initial_example \<and>
    (\<exists>m. run fresh_events initial_example = Inr m \<and> length (hosts m) = length (results m))"
    using lengths_equal_on_fresh_runs[where ?e0.0 = env0 and hs = example_hosts and m = "example_model"
        and batch = example_batch and e = env0 and k = "''y''" and h = "[]" and d = 0,
        THEN conjunct1]
      main_model_example run_fresh_events fresh_run_fresh_events
    by auto
  have h1: "length (hosts (example_model)) = length (results (example_model)) \<and>
      length example_batch = length (results example_model)"
    by (simp add: example_model_def example_batch_def)
  have c1': "\<exists>m'. Update env0 (pingResultsMsg example_batch) example_model = Inr (m', tickCmd example_model) \<and>
      hosts m' = hosts example_model \<and> length (results m') = length (hosts m') \<and>
      (\<forall>i < length example_batch.
          results m' ! i = reconcile (now env0) (results example_model ! i) (example_batch ! i))"
    using lengths_equal_on_fresh_runs[where ?e0.0 = env0 and hs = example_hosts and m = "example_model"
        and batch = example_batch and e = env0 and k = "''y''" and h = "[]" and d = 0] h1
    by blast
  have c1: "\<exists>m'. Update env0 (pingResultsMsg example_batch) example_model = Inr (m', tickCmd example_model) \<and>
      hosts m' = hosts example_model \<and> length (results m') = length (hosts m') \<and>
      results m' ! 0 = reconcile (now env0) (results example_model ! 0) (example_batch ! 0) \<and>
      results m' ! 1 = reconcile (now env0) (results example_model ! 1) (example_batch ! 1)"
  proof -
    have "(0::nat) < length example_batch" "(1::nat) < length example_batch"
      by (simp_all add: example_batch_def)
    then show ?thesis using c1' by blast
  qed
  have h2: "length (hosts (delete_model)) = length (results (delete_model)) \<and>
      mode delete_model = modeConfirmDelete \<and> oneOf ''y'' [''y'', ''Y''] \<and>
      0 \<le> confirmIndex delete_model \<and> confirmIndex delete_model < int (length (hosts delete_model))"
    by (simp add: delete_model_def example_model_def oneOf_def)
  have c2: "\<exists>m'. Update env0 (KeyMsg ''y'') delete_model = Inr (m', CmdNone) \<and>
      hosts m' = take (nat (confirmIndex delete_model)) (hosts delete_model) @
                 drop (Suc (nat (confirmIndex delete_model))) (hosts delete_model) \<and>
      results m' = take (nat (confirmIndex delete_model)) (results delete_model) @
                   drop (Suc (nat (confirmIndex delete_model))) (results delete_model)"
    using lengths_equal_on_fresh_runs[where ?e0.0 = env0 and hs = example_hosts and m = "delete_model"
        and batch = example_batch and e = env0 and k = "''y''" and h = "[]" and d = 0] h2
    by blast
  have h3: "length (hosts (add_model ''b.example'')) = length (results (add_model ''b.example'')) \<and>
      mode (add_model ''b.example'') = modeAdd \<and> \<not> Focused (inputHost (add_model ''b.example'')) \<and>
      TrimSpace (Value (inputHost (add_model ''b.example''))) \<noteq> []"
    by (simp add: add_model_def example_model_def TrimSpace_examples)
  have c3: "\<exists>m'. Update ip_env (KeyMsg ''enter'') (add_model ''b.example'') = Inr (m', pingAllCmd (hosts m')) \<and>
      mset (hosts m') =
        mset (hosts (add_model ''b.example'') @
              [\<lparr>Host = TrimSpace (Value (inputHost (add_model ''b.example''))),
                Desc = TrimSpace (Value (inputDesc (add_model ''b.example'')))\<rparr>]) \<and>
      results m' = replicate (length (hosts m')) zeroResult"
    using lengths_equal_on_fresh_runs[where ?e0.0 = env0 and hs = example_hosts and m = "add_model ''b.example''"
        and batch = example_batch and e = ip_env and k = "''y''" and h = "[]" and d = 0] h3
    by blast
  have h4: "length (hosts (edit_model)) = length (results (edit_model)) \<and>
      mode edit_model = modeEdit \<and> \<not> Focused (inputHost edit_model) \<and>
      TrimSpace (Value (inputHost edit_model)) \<noteq> [] \<and>
      0 \<le> editIndex edit_model \<and> editIndex edit_model < int (length (hosts edit_model))"
    by (simp add: edit_model_def example_model_def TrimSpace_examples)
  have c4: "\<exists>m'. Update env0 (KeyMsg ''enter'') edit_model = Inr (m', pingAllCmd (hosts m')) \<and>
      mset (hosts m') =
        mset ((hosts edit_model)[nat (editIndex edit_model) :=
                \<lparr>Host = TrimSpace (Value (inputHost edit_model)),
                 Desc = TrimSpace (Value (inputDesc edit_model))\<rparr>]) \<and>
      results m' = replicate (length (hosts m')) zeroResult"
    using lengths_equal_on_fresh_runs[where ?e0.0 = env0 and hs = example_hosts and m = "edit_model"
        and batch = example_batch and e = env0 and k = "''y''" and h = "[]" and d = 0] h4
    by blast
  have h5: "length (hosts (example_model)) = length (results (example_model)) \<and>
      mode example_model = modeList \<and> oneOf ''r'' [''r'', ''R''] \<and>
      loadHostsFromFile reload_env = Some example_hosts"
    by (simp add: example_model_def reload_env_def oneOf_def)
  have c5: "\<exists>m'. Update reload_env (KeyMsg ''r'') example_model = Inr (m', pingAllCmd (hosts m')) \<and>
      mset (hosts m') = mset example_hosts \<and>
      results m' = replicate (length (hosts m')) zeroResult"
    using lengths_equal_on_fresh_runs[where ?e0.0 = env0 and hs = example_hosts and m = "example_model"
        and batch = example_batch and e = reload_env and k = "''r''" and h = "example_hosts" and d = 0,
        THEN conjunct2, THEN conjunct1, THEN mp, THEN conjunct2, THEN conjunct2, THEN conjunct2, THEN conjunct2, THEN conjunct1] h5
    by blast
  have h6: "length (hosts (unparsed_model)) = length (results (unparsed_model))"
    by (simp add: unparsed_model_def example_model_def)
  have c6: "\<exists>idx m'. sortHosts env0 unparsed_model = Inr m' \<and>
      mset idx = mset [0 ..< length (hosts unparsed_model)] \<and>
      hosts m' = map ((!) (hosts unparsed_model)) idx \<and>
      results m' = map ((!) (results unparsed_model)) idx"
    using lengths_equal_on_fresh_runs[where ?e0.0 = env0 and hs = example_hosts and m = "unparsed_model"
        and batch = example_batch and e = env0 and k = "''y''" and h = "[]" and d = 0] h6
    by blast
  have h7: "length (hosts (options_model ''0.5'')) = length (results (options_model ''0.5'')) \<and>
      mode (options_model ''0.5'') = modeOptions \<and> optFocus (options_model ''0.5'') \<noteq> 0 \<and>
      ParseDuration parse_env (ReplaceComma (TrimSpace (Value (optInterval (options_model ''0.5'')))) @ ''s'') = Some 500000000 \<and>
      0.5 \<le> Seconds 500000000 \<and> Seconds 500000000 \<le> 5 \<and>
      0 \<le> optSortIndex (options_model ''0.5'') \<and> optSortIndex (options_model ''0.5'') < int (length sortChoices) \<and>
      distinct (map Host (hosts (options_model ''0.5'')))"
    by (simp add: options_model_def example_model_def parse_env_def exampleParseDuration_def
        TrimSpace_examples ReplaceComma_def Seconds_def sortChoices_def)
  have c7: "\<exists>idx m'. Update parse_env (KeyMsg ''enter'') (options_model ''0.5'') = Inr (m', pingAllCmd (hosts m')) \<and>
      mset idx = mset [0 ..< length (hosts (options_model ''0.5''))] \<and>
      hosts m' = map ((!) (hosts (options_model ''0.5''))) idx \<and>
      length (results m') = length (hosts m') \<and>
      results m' = map ((!) (results (options_model ''0.5''))) idx"
    using lengths_equal_on_fresh_runs[where ?e0.0 = env0 and hs = example_hosts and m = "options_model ''0.5''"
        and batch = example_batch and e = parse_env and k = "''y''" and h = "[]" and d = 500000000,
        THEN conjunct2, THEN conjunct1, THEN mp, THEN conjunct2, THEN conjunct2, THEN conjunct2, THEN conjunct2, THEN conjunct2, THEN conjunct2] h7
    by blast
  have h8: "length stale_batch \<noteq> length (results example_model)"
    by (simp add: example_model_def stale_batch_def)
  have c8: "\<exists>m'. Update env0 (pingResultsMsg stale_batch) example_model = Inr (m', tickCmd example_model) \<and>
      hosts m' = hosts example_model \<and> length (results m') = length stale_batch"
    using lengths_equal_on_fresh_runs[where ?e0.0 = env0 and hs = example_hosts and m = "example_model"
        and batch = stale_batch and e = env0 and k = "''y''" and h = "[]" and d = 0] h8
    by blast
  show ?thesis using a h1 c1 h2 c2 h3 c3 h4 c4 h5 c5 h6 c6 h7 c7 h8 c8 by blast
qed

text \<open>
  Claim C2 as stated fails. A host is deleted while the first probe round is in flight,
  and the batch of that round, of two outcomes, is delivered to the model of one host:
  the state reached has one host and two status records. And an options confirm over two
  rows with the same address, the first up and the second down, leaves the rows in place
  and gives the second row the record of the first.
\<close>

theorem stale_batch_breaks_lengths:
  "main_model env0 example_hosts = Inr initial_example \<and>
   map_sum id (length \<circ> hosts) (run stale_events initial_example) = Inr 1 \<and>
   map_sum id (length \<circ> results) (run stale_events initial_example) = Inr 2 \<and>
   map Host (hosts twin_model) = [''a.example'', ''a.example''] \<and>
   map status (results twin_model) = [True, False] \<and>
   map_sum id (map Desc \<circ> hosts \<circ> fst) (Update parse_env (KeyMsg ''enter'') twin_model) =
     Inr [''first'', ''second''] \<and>
   map_sum id (map status \<circ> results \<circ> fst) (Update parse_env (KeyMsg ''enter'') twin_model) =
     Inr [True, True]"
proof -
  have "run stale_events initial_example =
     Inr (initial_example\<lparr>hosts := [\<lparr>Host = ''b.example'', Desc = ''B''\<rparr>],
            results := [\<lparr>status = True, reply = 11.9, lastChange = 1000 * Second, flashUntil = 1002 * Second\<rparr>,
                        \<lparr>status = True, reply = 3.5, lastChange = 1000 * Second, flashUntil = 1002 * Second\<rparr>],
            confirmIndex := 0, message := ''Host deleted''\<rparr>)"
  by (simp add: stale_events_def initial_example_def example_batch_def env0_def Update_def
      Update_pingResults_def Update_modeList_def Update_modeConfirmDelete_def oneOf_def
      index_def store_def reconcile_def zeroResult_def Let_def IsZero_def After_def Second_def
      setMessage_def tickCmd_def)
  moreover have "Update parse_env (KeyMsg ''enter'') twin_model =
     Inr (twin_model\<lparr>interval := 500000000, sortBy := ''name'',
            results := [\<lparr>status = True, reply = 12.3, lastChange = 100 * Second, flashUntil = 0\<rparr>,
                        \<lparr>status = True, reply = 12.3, lastChange = 100 * Second, flashUntil = 0\<rparr>],
            cursor := 0, mode := modeList\<rparr>,
          CmdPingAll (hosts twin_model))"
    by (simp add: Update_def Update_modeOptions_def confirmOptions_def twin_model_def
        options_model_def example_model_def parse_env_def env0_def exampleParseDuration_def
        TrimSpace_examples ReplaceComma_def Seconds_def sortChoices_def indexInt_def
        sortHosts_def sortedIdx_def SliceStable_def less_idx_def lessName_def index_def store_def
        upt_rec zeroHost_def zeroResult_def remap_def pingAllCmd_def ToLower_def lowerChar_def)
  ultimately show ?thesis using main_model_example
    by (simp add: twin_model_def options_model_def example_model_def)
qed

end
